theory Spec2Isabelle
  imports Complex_Main "HOL-Library.Log_Nat" "HOL-Library.Monad_Syntax"
begin

section \<open>Python strings\<close>

text \<open>
  A Python \<open>str\<close> is modelled as a \<open>string\<close>: a list of characters, each character a
  code point below 256. The operations below are the ones the services call on reply
  texts and file names: \<open>strip\<close>, \<open>lower\<close>, \<open>find\<close>, \<open>rfind\<close>, \<open>in\<close>, \<open>startswith\<close>,
  \<open>split\<close> and slicing.
\<close>

definition is_space :: "char \<Rightarrow> bool" where
  \<comment> \<open>\<open>str.isspace\<close> on the code points below 256.\<close>
  "is_space c = ((of_char c :: nat) \<in> {9, 10, 11, 12, 13, 28, 29, 30, 31, 32, 133, 160})"

definition strip :: "string \<Rightarrow> string" where
  "strip s = rev (dropWhile is_space (rev (dropWhile is_space s)))"

definition lower_char :: "char \<Rightarrow> char" where
  "lower_char c =
     (let n = (of_char c :: nat)
      in if (65 \<le> n \<and> n \<le> 90) \<or> (192 \<le> n \<and> n \<le> 222 \<and> n \<noteq> 215)
         then char_of (n + 32) else c)"

definition lower :: "string \<Rightarrow> string" where
  "lower s = map lower_char s"

definition startswith :: "string \<Rightarrow> string \<Rightarrow> bool" where
  "startswith s p = (take (length p) s = p)"

fun find_aux :: "string \<Rightarrow> string \<Rightarrow> nat \<Rightarrow> int" where
  \<comment> \<open>the scan of \<open>find\<close>: \<open>i\<close> is the index of the head of the text still to scan\<close>
  "find_aux sub [] i = (if sub = [] then int i else -1)"
| "find_aux sub (c # cs) i =
     (if startswith (c # cs) sub then int i else find_aux sub cs (Suc i))"

definition find :: "string \<Rightarrow> string \<Rightarrow> int" where
  \<comment> \<open>\<open>s.find(sub)\<close>: the lowest index where \<open>sub\<close> occurs, or \<open>-1\<close>\<close>
  "find s sub = find_aux sub s 0"

definition find_from :: "string \<Rightarrow> string \<Rightarrow> nat \<Rightarrow> int" where
  \<comment> \<open>\<open>s.find(sub, start)\<close> for a non-negative \<open>start\<close>\<close>
  "find_from s sub start =
     (if start > length s then -1 else find_aux sub (drop start s) start)"

fun rfind_aux :: "string \<Rightarrow> string \<Rightarrow> nat \<Rightarrow> int" where
  \<comment> \<open>the scan of \<open>rfind\<close>: the highest index of an occurrence in the text still to scan\<close>
  "rfind_aux sub [] i = (if sub = [] then int i else -1)"
| "rfind_aux sub (c # cs) i =
     (let r = rfind_aux sub cs (Suc i)
      in if r \<noteq> -1 then r else if startswith (c # cs) sub then int i else -1)"

definition rfind :: "string \<Rightarrow> string \<Rightarrow> int" where
  \<comment> \<open>\<open>s.rfind(sub)\<close>: the highest index where \<open>sub\<close> occurs, or \<open>-1\<close>\<close>
  "rfind s sub = rfind_aux sub s 0"

definition contains :: "string \<Rightarrow> string \<Rightarrow> bool" where
  \<comment> \<open>\<open>sub in s\<close>\<close>
  "contains s sub = (find s sub \<noteq> -1)"

definition slice :: "string \<Rightarrow> int \<Rightarrow> int \<Rightarrow> string" where
  \<comment> \<open>\<open>s[a:b]\<close>: a negative index counts from the end, and both are clamped to the text\<close>
  "slice s a b =
     (let n = int (length s);
          lo = (if a < 0 then max 0 (n + a) else min a n);
          hi = (if b < 0 then max 0 (n + b) else min b n)
      in take (nat (hi - lo)) (drop (nat lo) s))"

fun split_on :: "char \<Rightarrow> string \<Rightarrow> string list" where
  \<comment> \<open>\<open>s.split(c)\<close> for a one-character separator\<close>
  "split_on c [] = [[]]"
| "split_on c (x # xs) =
     (let ps = split_on c xs
      in if x = c then [] # ps else (x # hd ps) # tl ps)"

section \<open>Python values and exceptions\<close>

text \<open>
  What \<open>json.loads\<close> returns: \<open>None\<close>, a \<open>bool\<close>, an unbounded \<open>int\<close>, a \<open>float\<close>, a \<open>str\<close>,
  a \<open>list\<close> or a \<open>dict\<close> with string keys. A dict is an association list in insertion
  order; a lookup takes the first entry of a key. A finite \<open>float\<close> is the rational
  number it denotes.
\<close>

datatype pyfloat = Finite rat | PosInf | NegInf | NaN

datatype json =
    JNull
  | JBool bool
  | JInt int
  | JFloat pyfloat
  | JStr string
  | JList "json list"
  | JDict "(string \<times> json) list"

text \<open>
  Every exception the two services can meet is a value. \<open>AttributeError v a\<close>: the value
  \<open>v\<close> has no attribute \<open>a\<close>. \<open>TypeError v what\<close>: \<open>v\<close> is not iterable, or is not a
  mapping. \<open>ValidationError m kw\<close>: pydantic refused the keyword arguments \<open>kw\<close> for the
  model \<open>m\<close>. \<open>OtherException\<close>: anything else a library raises (a failed request to the
  model, a recursion limit).
\<close>

datatype pyerr =
    JSONDecodeError
  | ValueError string
  | AttributeError json string
  | TypeError json string
  | ValidationError string "(string \<times> json) list"
  | OverflowError
  | ZeroDivisionError
  | OtherException string

definition and_then :: "pyerr + 'a \<Rightarrow> ('a \<Rightarrow> pyerr + 'b) \<Rightarrow> pyerr + 'b" where
  \<comment> \<open>sequencing: an exception of the first step skips the rest\<close>
  "and_then r f = (case r of Inl e \<Rightarrow> Inl e | Inr x \<Rightarrow> f x)"

fun traverse :: "('a \<Rightarrow> pyerr + 'b) \<Rightarrow> 'a list \<Rightarrow> pyerr + 'b list" where
  \<comment> \<open>a loop or comprehension over a list: the first exception ends it\<close>
  "traverse f [] = Inr []"
| "traverse f (x # xs) =
     and_then (f x) (\<lambda>y. and_then (traverse f xs) (\<lambda>ys. Inr (y # ys)))"

text \<open>
  The libraries the services call are parameters of the model: \<open>json.loads\<close>; what
  pydantic makes of a value that is not already of a field's type (its coercions differ
  between versions); and \<open>str(e)\<close> of an exception the code did not raise itself.
\<close>

record externals =
  json_loads :: "string \<Rightarrow> pyerr + json"
  coerce_str :: "json \<Rightarrow> string option"
  coerce_int :: "json \<Rightarrow> int option"
  exc_text :: "pyerr \<Rightarrow> string"

definition str_exc :: "externals \<Rightarrow> pyerr \<Rightarrow> string" where
  \<comment> \<open>\<open>str(e)\<close>\<close>
  "str_exc X e = (case e of ValueError m \<Rightarrow> m | _ \<Rightarrow> exc_text X e)"

subsection \<open>Dictionaries\<close>

definition get_or :: "('k \<times> 'v) list \<Rightarrow> 'k \<Rightarrow> 'v \<Rightarrow> 'v" where
  \<comment> \<open>\<open>d.get(k, default)\<close>\<close>
  "get_or d k dflt = (case map_of d k of None \<Rightarrow> dflt | Some v \<Rightarrow> v)"

definition has_key :: "(string \<times> json) list \<Rightarrow> string \<Rightarrow> bool" where
  \<comment> \<open>\<open>k in d\<close>\<close>
  "has_key d k = (map_of d k \<noteq> None)"

fun set_item :: "string \<Rightarrow> json \<Rightarrow> (string \<times> json) list \<Rightarrow> (string \<times> json) list" where
  \<comment> \<open>\<open>d[k] = v\<close>, and \<open>{**d, k: v}\<close>: an existing key keeps its place\<close>
  "set_item k v [] = [(k, v)]"
| "set_item k v ((k', v') # d) =
     (if k' = k then (k, v) # d else (k', v') # set_item k v d)"

definition setdefault :: "string \<Rightarrow> json \<Rightarrow> (string \<times> json) list \<Rightarrow> (string \<times> json) list" where
  \<comment> \<open>\<open>d.setdefault(k, v)\<close>\<close>
  "setdefault k v d = (if has_key d k then d else d @ [(k, v)])"

definition get_method :: "json \<Rightarrow> string \<Rightarrow> json \<Rightarrow> pyerr + json" where
  \<comment> \<open>\<open>x.get(k, default)\<close> on any value: only a dict has the method\<close>
  "get_method x k dflt =
     (case x of JDict d \<Rightarrow> Inr (get_or d k dflt) | _ \<Rightarrow> Inl (AttributeError x ''get''))"

definition py_iter :: "json \<Rightarrow> pyerr + json list" where
  \<comment> \<open>\<open>for item in x\<close>: a list gives its items, a dict its keys, a string its characters\<close>
  "py_iter x =
     (case x of
        JList xs \<Rightarrow> Inr xs
      | JDict d \<Rightarrow> Inr (map (\<lambda>(k, _). JStr k) d)
      | JStr s \<Rightarrow> Inr (map (\<lambda>c. JStr [c]) s)
      | _ \<Rightarrow> Inl (TypeError x ''is not iterable''))"

definition mapping :: "json \<Rightarrow> pyerr + (string \<times> json) list" where
  \<comment> \<open>\<open>**x\<close>: only a dict can be unpacked\<close>
  "mapping x = (case x of JDict d \<Rightarrow> Inr d | _ \<Rightarrow> Inl (TypeError x ''is not a mapping''))"

section \<open>The data model (\<open>models.py\<close>)\<close>

datatype SupportedLanguage = PYTHON | TYPESCRIPT | JAVASCRIPT | JAVA | CPP | CSHARP

record FileInfo =
  filename :: string
  content :: string
  language :: SupportedLanguage

record FeedbackItem =
  category :: string
  severity :: string
  line :: int
  message :: string
  suggestion :: string
  filename :: "string option"

record FileFeedback =
  filename :: string
  feedback :: "FeedbackItem list"
  summary :: string
  score :: int

record MultiFileReviewResponse =
  project_name :: string
  files :: "FileFeedback list"
  cross_file_issues :: "FeedbackItem list"
  overall_summary :: string
  overall_score :: int
  total_files :: int
  total_issues :: int

subsection \<open>Validation by pydantic\<close>

text \<open>
  A \<open>str\<close> field takes a string as it is and an \<open>int\<close> field takes an integer as it is;
  any other value goes through the version's coercion, which may refuse it. A required
  field that is missing is refused; keys that name no field are ignored. The optional
  \<open>filename\<close> is \<open>None\<close> when missing or \<open>null\<close>.
\<close>

definition str_field :: "externals \<Rightarrow> json \<Rightarrow> string option" where
  "str_field X v = (case v of JStr s \<Rightarrow> Some s | _ \<Rightarrow> coerce_str X v)"

definition int_field :: "externals \<Rightarrow> json \<Rightarrow> int option" where
  "int_field X v = (case v of JInt n \<Rightarrow> Some n | _ \<Rightarrow> coerce_int X v)"

definition required_str :: "externals \<Rightarrow> (string \<times> json) list \<Rightarrow> string \<Rightarrow> string option" where
  "required_str X kw k = (case map_of kw k of None \<Rightarrow> None | Some v \<Rightarrow> str_field X v)"

definition required_int :: "externals \<Rightarrow> (string \<times> json) list \<Rightarrow> string \<Rightarrow> int option" where
  "required_int X kw k = (case map_of kw k of None \<Rightarrow> None | Some v \<Rightarrow> int_field X v)"

definition optional_str ::
  "externals \<Rightarrow> (string \<times> json) list \<Rightarrow> string \<Rightarrow> string option option" where
  "optional_str X kw k =
     (case map_of kw k of
        None \<Rightarrow> Some None
      | Some JNull \<Rightarrow> Some None
      | Some v \<Rightarrow> map_option Some (str_field X v))"

definition new_FeedbackItem :: "externals \<Rightarrow> (string \<times> json) list \<Rightarrow> pyerr + FeedbackItem" where
  \<comment> \<open>\<open>FeedbackItem(**kw)\<close>\<close>
  "new_FeedbackItem X kw =
     (case do {
             c \<leftarrow> required_str X kw ''category'';
             s \<leftarrow> required_str X kw ''severity'';
             l \<leftarrow> required_int X kw ''line'';
             m \<leftarrow> required_str X kw ''message'';
             g \<leftarrow> required_str X kw ''suggestion'';
             f \<leftarrow> optional_str X kw ''filename'';
             Some \<lparr>category = c, severity = s, line = l, message = m, suggestion = g,
                   filename = f\<rparr>
           } of
        None \<Rightarrow> Inl (ValidationError ''FeedbackItem'' kw)
      | Some item \<Rightarrow> Inr item)"

definition new_FileFeedback ::
  "externals \<Rightarrow> string \<Rightarrow> FeedbackItem list \<Rightarrow> json \<Rightarrow> json \<Rightarrow> pyerr + FileFeedback" where
  \<comment> \<open>\<open>FileFeedback(filename=..., feedback=..., summary=..., score=...)\<close> with a string
      file name and items that are \<open>FeedbackItem\<close> objects already\<close>
  "new_FileFeedback X fname items summary_value score_value =
     (case do {
             s \<leftarrow> str_field X summary_value;
             n \<leftarrow> int_field X score_value;
             Some \<lparr>filename = fname, feedback = items, summary = s, score = n\<rparr>
           } of
        None \<Rightarrow>
          Inl (ValidationError ''FileFeedback''
                 [(''summary'', summary_value), (''score'', score_value)])
      | Some fa \<Rightarrow> Inr fa)"

section \<open>Language detection (\<open>AIService.detect_language_from_filename\<close>)\<close>

definition extension_map :: "(string \<times> SupportedLanguage) list" where
  "extension_map =
     [(''py'', PYTHON), (''ts'', TYPESCRIPT), (''tsx'', TYPESCRIPT),
      (''js'', JAVASCRIPT), (''jsx'', JAVASCRIPT), (''java'', JAVA),
      (''cpp'', CPP), (''cc'', CPP), (''cxx'', CPP), (''c'', CPP),
      (''h'', CPP), (''hpp'', CPP), (''cs'', CSHARP)]"

definition detect_language_from_filename :: "string \<Rightarrow> SupportedLanguage" where
  "detect_language_from_filename fname =
     (let extension =
            (if contains fname ''.'' then last (split_on (CHR ''.'') (lower fname))
             else '''')
      in get_or extension_map extension PYTHON)"

section \<open>The model client\<close>

text \<open>
  \<open>client.models.generate_content\<close> is the only source of nondeterminism. A call either
  raises or returns a response whose \<open>text\<close> is a string or \<open>None\<close>. The client is a
  state: the outcomes of its calls in order, and the number of calls made so far. The
  prompt is not modelled: the outcome of the \<open>n\<close>-th call is arbitrary, whatever was sent.
\<close>

type_synonym reply = "pyerr + string option"

record client =
  replies :: "nat \<Rightarrow> reply"
  calls :: nat

definition generate_content :: "client \<Rightarrow> reply \<times> client" where
  "generate_content c = (replies c (calls c), c\<lparr>calls := Suc (calls c)\<rparr>)"

definition py_strip :: "string option \<Rightarrow> pyerr + string" where
  \<comment> \<open>\<open>text.strip()\<close>, where \<open>text\<close> may be \<open>None\<close>\<close>
  "py_strip text =
     (case text of None \<Rightarrow> Inl (AttributeError JNull ''strip'') | Some s \<Rightarrow> Inr (strip s))"

section \<open>Single-file review (\<open>AIService.analyze_code\<close>)\<close>

definition item_defaults :: "json \<Rightarrow> pyerr + json" where
  \<comment> \<open>the five \<open>item.setdefault\<close> calls of the loop body\<close>
  "item_defaults item =
     (case item of
        JDict d \<Rightarrow>
          Inr (JDict
            (setdefault ''suggestion'' (JStr ''Consider reviewing this code'')
            (setdefault ''message'' (JStr ''Issue identified'')
            (setdefault ''severity'' (JStr ''medium'')
            (setdefault ''category'' (JStr ''style'')
            (setdefault ''line'' (JInt 1) d))))))
      | _ \<Rightarrow> Inl (AttributeError item ''setdefault''))"

definition analyze_code_json_content :: "string \<Rightarrow> pyerr + string" where
  \<comment> \<open>the \<open>if\<close>/\<open>elif\<close>/\<open>else\<close> of \<open>analyze_code\<close> that sets \<open>json_content\<close> from the
      stripped reply\<close>
  "analyze_code_json_content response_text =
     (if contains response_text ''```json'' then
        let json_start = find response_text ''```json'' + 7;
            json_end = find_from response_text ''```'' (nat json_start)
        in Inr (strip (slice response_text json_start json_end))
      else if startswith response_text ''{'' then Inr response_text
      else
        let start_brace = find response_text ''{'';
            end_brace = rfind response_text ''}'' + 1
        in if start_brace \<noteq> -1 \<and> end_brace \<noteq> 0
           then Inr (slice response_text start_brace end_brace)
           else Inl (ValueError ''No valid JSON found in response''))"

definition analyze_code_try :: "externals \<Rightarrow> reply \<Rightarrow> pyerr + json" where
  \<comment> \<open>the body of the \<open>try\<close>, from the outcome of the call on\<close>
  "analyze_code_try X response =
     and_then response (\<lambda>text.
     and_then (py_strip text) (\<lambda>response_text.
     and_then (analyze_code_json_content response_text) (\<lambda>json_content.
     and_then (json_loads X json_content) (\<lambda>result.
       case result of
         JDict d \<Rightarrow>
           if \<not> has_key d ''feedback'' then Inl (ValueError ''Invalid response structure'')
           else
             let d1 = (case map_of d ''feedback'' of
                         Some (JList _) \<Rightarrow> d
                       | _ \<Rightarrow> set_item ''feedback'' (JList []) d);
                 d2 = setdefault ''summary'' (JStr ''Code analysis completed'') d1;
                 d3 = setdefault ''overall_score'' (JInt 5) d2;
                 items = (case map_of d3 ''feedback'' of Some (JList xs) \<Rightarrow> xs | _ \<Rightarrow> [])
             in and_then (traverse item_defaults items) (\<lambda>items'.
                  Inr (JDict (set_item ''feedback'' (JList items') d3)))
       | _ \<Rightarrow> Inl (ValueError ''Invalid response structure'')))))"

definition parse_issue_record :: json where
  \<comment> \<open>what the \<open>except json.JSONDecodeError\<close> handler returns\<close>
  "parse_issue_record =
     JDict
       [(''feedback'',
         JList
           [JDict
              [(''category'', JStr ''style''),
               (''severity'', JStr ''medium''),
               (''line'', JInt 1),
               (''message'', JStr ''Unable to parse AI response, but code was analyzed''),
               (''suggestion'', JStr ''Please try again or check the code syntax'')]]),
        (''summary'', JStr ''Analysis completed with parsing issues''),
        (''overall_score'', JInt 5)]"

definition error_record :: "string \<Rightarrow> json" where
  \<comment> \<open>what the \<open>except Exception\<close> handler returns, from \<open>str(e)\<close>\<close>
  "error_record msg =
     JDict
       [(''feedback'',
         JList
           [JDict
              [(''category'', JStr ''logic''),
               (''severity'', JStr ''low''),
               (''line'', JInt 1),
               (''message'', JStr (''Analysis error: '' @ msg)),
               (''suggestion'', JStr ''Please verify your code and try again'')]]),
        (''summary'', JStr ''Unable to complete full analysis''),
        (''overall_score'', JInt 5)]"

definition analyze_code :: "externals \<Rightarrow> client \<Rightarrow> json \<times> client" where
  "analyze_code X c =
     (let (response, c') = generate_content c
      in (case analyze_code_try X response of
            Inr result \<Rightarrow> result
          | Inl JSONDecodeError \<Rightarrow> parse_issue_record
          | Inl e \<Rightarrow> error_record (str_exc X e),
          c'))"

section \<open>Multi-file review (\<open>MultiFileAnalysisService\<close>)\<close>

definition fallback_record :: json where
  \<comment> \<open>what \<open>parse_ai_response\<close> returns from its \<open>except\<close> handler\<close>
  "fallback_record =
     JDict
       [(''feedback'',
         JList
           [JDict
              [(''category'', JStr ''style''),
               (''severity'', JStr ''medium''),
               (''line'', JInt 1),
               (''message'', JStr ''Unable to parse analysis response''),
               (''suggestion'', JStr ''Please try again or check file syntax'')]]),
        (''summary'', JStr ''Analysis completed with parsing issues''),
        (''score'', JInt 5)]"

definition parse_ai_response_json_content :: "string \<Rightarrow> pyerr + string" where
  \<comment> \<open>the \<open>if\<close>/\<open>elif\<close>/\<open>else\<close> of \<open>parse_ai_response\<close> that sets \<open>json_content\<close> from
      the stripped reply\<close>
  "parse_ai_response_json_content response_text =
     (if contains response_text ''```json'' then
        let json_start = find response_text ''```json'' + 7;
            json_end = find_from response_text ''```'' (nat json_start)
        in Inr (strip (slice response_text json_start json_end))
      else if startswith response_text ''{'' \<or> startswith response_text ''['' then
        Inr response_text
      else
        let start_brace = find response_text ''{'';
            end_brace = rfind response_text ''}'' + 1
        in if start_brace \<noteq> -1 \<and> end_brace \<noteq> 0
           then Inr (slice response_text start_brace end_brace)
           else Inl (ValueError ''No valid JSON found''))"

definition parse_ai_response :: "externals \<Rightarrow> string option \<Rightarrow> pyerr + json" where
  \<comment> \<open>the handler catches \<open>JSONDecodeError\<close> and \<open>ValueError\<close> only\<close>
  "parse_ai_response X text =
     (case
        and_then (py_strip text) (\<lambda>response_text.
        and_then (parse_ai_response_json_content response_text)
          (\<lambda>json_content. json_loads X json_content))
      of
        Inr result \<Rightarrow> Inr result
      | Inl JSONDecodeError \<Rightarrow> Inr fallback_record
      | Inl (ValueError _) \<Rightarrow> Inr fallback_record
      | Inl e \<Rightarrow> Inl e)"

definition analyze_single_file_try :: "externals \<Rightarrow> reply \<Rightarrow> string \<Rightarrow> pyerr + FileFeedback" where
  \<comment> \<open>the body of the \<open>try\<close> of \<open>analyze_single_file\<close>, from the outcome of the call on,
      for the file named \<open>fname\<close>\<close>
  "analyze_single_file_try X response fname =
     and_then response (\<lambda>text.
     and_then (parse_ai_response X text) (\<lambda>result.
     and_then (get_method result ''feedback'' (JList [])) (\<lambda>fb.
     and_then (py_iter fb) (\<lambda>items.
     and_then
       (traverse
          (\<lambda>item. and_then (mapping item) (\<lambda>d.
             new_FeedbackItem X (set_item ''filename'' (JStr fname) d)))
          items)
       (\<lambda>feedback_items.
     and_then (get_method result ''summary'' (JStr (''Analysis for '' @ fname)))
       (\<lambda>summary_value.
     and_then (get_method result ''score'' (JInt 5)) (\<lambda>score_value.
     new_FileFeedback X fname feedback_items summary_value score_value)))))))"

definition analyze_single_file ::
  "externals \<Rightarrow> client \<Rightarrow> FileInfo \<Rightarrow> FileInfo list \<Rightarrow> FileFeedback \<times> client" where
  \<comment> \<open>\<open>all_files\<close> only feeds the prompt\<close>
  "analyze_single_file X c file_info all_files =
     (let fname = FileInfo.filename file_info;
          (response, c') = generate_content c
      in (case analyze_single_file_try X response fname of
            Inr file_feedback \<Rightarrow> file_feedback
          | Inl e \<Rightarrow>
              \<lparr>filename = fname,
               feedback =
                 [\<lparr>category = ''logic'', severity = ''low'', line = 1,
                   message = ''Analysis error: '' @ str_exc X e,
                   suggestion = ''Please verify file content and try again'',
                   filename = Some fname\<rparr>],
               summary = ''Unable to analyze '' @ fname,
               score = 5\<rparr>,
          c'))"

definition analyze_cross_file_dependencies ::
  "externals \<Rightarrow> client \<Rightarrow> FileInfo list \<Rightarrow> FeedbackItem list \<times> client" where
  "analyze_cross_file_dependencies X c file_list =
     (if length file_list < 2 then ([], c)
      else
        let (response, c') = generate_content c;
            unpack = (\<lambda>item. and_then (mapping item) (new_FeedbackItem X));
            attempt =
              and_then response (\<lambda>text.
              and_then (parse_ai_response X text) (\<lambda>result.
                case result of
                  JList items \<Rightarrow> traverse unpack items
                | JDict d \<Rightarrow>
                    if has_key d ''feedback''
                    then and_then (py_iter (get_or d ''feedback'' JNull)) (traverse unpack)
                    else Inr []
                | _ \<Rightarrow> Inr []))
        in (case attempt of
              Inr issues \<Rightarrow> issues
            | Inl e \<Rightarrow>
                [\<lparr>category = ''logic'', severity = ''low'', line = 1,
                  message = ''Cross-file analysis error: '' @ str_exc X e,
                  suggestion = ''Manual review recommended for cross-file dependencies'',
                  filename = Some ''multiple_files''\<rparr>],
            c'))"

subsection \<open>The project summary\<close>

fun str_nat :: "nat \<Rightarrow> string" where
  \<comment> \<open>\<open>str(n)\<close> of a non-negative integer, in decimal\<close>
  "str_nat n =
     (if n < 10 then [char_of (48 + n)]
      else str_nat (n div 10) @ [char_of (48 + n mod 10)])"

definition generate_overall_summary :: "FileFeedback list \<Rightarrow> FeedbackItem list \<Rightarrow> string" where
  "generate_overall_summary file_analyses cross =
     (let total = sum_list (map (\<lambda>fa. length (feedback fa)) file_analyses) + length cross;
          high_severity =
            sum_list
              (map (\<lambda>fa. length (filter (\<lambda>f. severity f = ''high'') (feedback fa)))
                 file_analyses)
            + length (filter (\<lambda>f. severity f = ''high'') cross)
      in if total = 0 then
           ''Excellent codebase! No significant issues found across all files.''
         else if high_severity > 0 then
           ''Codebase needs attention: '' @ str_nat total
           @ '' total issues found, including '' @ str_nat high_severity
           @ '' high-severity issues.''
         else
           ''Good codebase with room for improvement: '' @ str_nat total
           @ '' minor to medium issues found.'')"

subsection \<open>The project score\<close>

text \<open>
  \<open>sum(...) / len(...)\<close> divides two integers into a \<open>float\<close>: the quotient, correctly
  rounded to the nearest binary64 number (ties to the even significand), or
  \<open>OverflowError\<close> when that is beyond the largest one. A finite float is the rational it
  denotes. \<open>round\<close> of a float is the nearest integer, ties to the even one, and is exact.
\<close>

definition round_half_even :: "rat \<Rightarrow> int" where
  "round_half_even x =
     (let f = \<lfloor>x\<rfloor>; d = x - of_int f
      in if d < 1 / 2 then f else if 1 / 2 < d then f + 1 else if even f then f else f + 1)"

definition floor_log2 :: "rat \<Rightarrow> int" where
  \<comment> \<open>the exponent \<open>e\<close> with \<open>2^e \<le> |x| < 2^(e+1)\<close>, for \<open>x \<noteq> 0\<close>\<close>
  "floor_log2 x =
     (let (a, b) = quotient_of \<bar>x\<bar>; d = bitlen a - bitlen b
      in if 2 powi d \<le> \<bar>x\<bar> then d else d - 1)"

definition to_double :: "rat \<Rightarrow> pyerr + rat" where
  \<comment> \<open>53 significant bits; the least exponent of a unit in the last place is \<open>-1074\<close>\<close>
  "to_double x =
     (if x = 0 then Inr 0
      else
        let p = max (floor_log2 x - 52) (- 1074);
            r = of_int (round_half_even (x / 2 powi p)) * 2 powi p
        in if 2 ^ 1024 \<le> \<bar>r\<bar> then Inl OverflowError else Inr r)"

definition true_div :: "int \<Rightarrow> int \<Rightarrow> pyerr + rat" where
  \<comment> \<open>\<open>a / b\<close> on integers\<close>
  "true_div a b =
     (if b = 0 then Inl ZeroDivisionError else to_double (of_int a / of_int b))"

definition calculate_overall_score :: "FileFeedback list \<Rightarrow> pyerr + int" where
  "calculate_overall_score file_analyses =
     (if file_analyses = [] then Inr 5
      else
        and_then (true_div (sum_list (map score file_analyses)) (int (length file_analyses)))
          (\<lambda>avg_score. Inr (round_half_even avg_score)))"

subsection \<open>The whole review\<close>

fun analyze_files ::
  "externals \<Rightarrow> FileInfo list \<Rightarrow> FileInfo list
   \<Rightarrow> FileFeedback list \<times> FeedbackItem list \<times> client
   \<Rightarrow> FileFeedback list \<times> FeedbackItem list \<times> client" where
  \<comment> \<open>the \<open>for file_info in files\<close> loop, on \<open>file_analyses\<close>, \<open>all_feedback\<close> and the client\<close>
  "analyze_files X all_files [] acc = acc"
| "analyze_files X all_files (file_info # rest) (file_analyses, all_feedback, c) =
     (let (file_analysis, c') = analyze_single_file X c file_info all_files
      in analyze_files X all_files rest
           (file_analyses @ [file_analysis], all_feedback @ feedback file_analysis, c'))"

definition analyze_codebase ::
  "externals \<Rightarrow> client \<Rightarrow> FileInfo list \<Rightarrow> string
   \<Rightarrow> (pyerr + MultiFileReviewResponse) \<times> client" where
  "analyze_codebase X c file_list pname =
     (let (file_analyses, all_feedback, c1) = analyze_files X file_list file_list ([], [], c);
          (cross, c2) = analyze_cross_file_dependencies X c1 file_list;
          all_feedback' = all_feedback @ cross;
          overall = generate_overall_summary file_analyses cross
      in (and_then (calculate_overall_score file_analyses) (\<lambda>s.
            Inr \<lparr>project_name = pname,
                 files = file_analyses,
                 cross_file_issues = cross,
                 overall_summary = overall,
                 overall_score = s,
                 total_files = int (length file_list),
                 total_issues = int (length all_feedback')\<rparr>),
          c2))"

section \<open>The vocabulary of the specification\<close>

subsection \<open>The summary in the words of the specification\<close>

definition all_issues :: "FileFeedback list \<Rightarrow> FeedbackItem list \<Rightarrow> FeedbackItem list" where
  \<comment> \<open>the per-file feedback of every file, then the cross-file issues\<close>
  "all_issues file_analyses cross = concat (map feedback file_analyses) @ cross"

definition high_issues :: "FileFeedback list \<Rightarrow> FeedbackItem list \<Rightarrow> FeedbackItem list" where
  "high_issues file_analyses cross =
     filter (\<lambda>f. severity f = ''high'') (all_issues file_analyses cross)"

definition excellent_narrative :: string where
  "excellent_narrative = ''Excellent codebase! No significant issues found across all files.''"

definition attention_narrative :: "nat \<Rightarrow> nat \<Rightarrow> string" where
  "attention_narrative n h =
     ''Codebase needs attention: '' @ str_nat n @ '' total issues found, including ''
     @ str_nat h @ '' high-severity issues.''"

definition improvement_narrative :: "nat \<Rightarrow> string" where
  "improvement_narrative n =
     ''Good codebase with room for improvement: '' @ str_nat n
     @ '' minor to medium issues found.''"

subsection \<open>The mean in the words of the specification\<close>

definition mean_score :: "FileFeedback list \<Rightarrow> rat" where
  "mean_score file_analyses =
     of_int (sum_list (map score file_analyses)) / of_int (int (length file_analyses))"

subsection \<open>A well-formed record, in the words of the specification\<close>

definition item_has_keys :: "json \<Rightarrow> bool" where
  "item_has_keys item =
     (case item of
        JDict d \<Rightarrow>
          list_all (has_key d) [''category'', ''severity'', ''line'', ''message'', ''suggestion'']
      | _ \<Rightarrow> False)"

definition well_formed_record :: "json \<Rightarrow> bool" where
  "well_formed_record r =
     (case r of
        JDict d \<Rightarrow>
          (case map_of d ''feedback'' of
             Some (JList items) \<Rightarrow> list_all item_has_keys items
           | _ \<Rightarrow> False)
          \<and> has_key d ''summary'' \<and> has_key d ''overall_score''
      | _ \<Rightarrow> False)"

definition safe_default :: "json \<Rightarrow> bool" where
  \<comment> \<open>overall score 5 and exactly one feedback item\<close>
  "safe_default r =
     (case r of
        JDict d \<Rightarrow>
          map_of d ''overall_score'' = Some (JInt 5)
          \<and> (case map_of d ''feedback'' of Some (JList items) \<Rightarrow> length items = 1 | _ \<Rightarrow> False)
      | _ \<Rightarrow> False)"

subsection \<open>Occurrences of a text in a text, in the words of the specification\<close>




subsection \<open>An unparseable reply, in the words of the specification\<close>

definition unparseable :: "externals \<Rightarrow> string \<Rightarrow> bool" where
  \<comment> \<open>no JSON text can be taken from the reply, or \<open>json.loads\<close> refuses it\<close>
  "unparseable X tx =
     (case parse_ai_response_json_content (strip tx) of
        Inl _ \<Rightarrow> True
      | Inr json_content \<Rightarrow> json_loads X json_content = Inl JSONDecodeError)"



subsection \<open>The per-file results of a review\<close>

definition per_file_analyses :: "externals \<Rightarrow> client \<Rightarrow> FileInfo list \<Rightarrow> FileFeedback list" where
  \<comment> \<open>the per-file results of a review, in the order of the files\<close>
  "per_file_analyses X c file_list = fst (analyze_files X file_list file_list ([], [], c))"

section \<open>Example inputs\<close>

subsection \<open>Example libraries\<close>

text \<open>
  A stand-in for \<open>json.loads\<close> that decodes the documents of the examples below and
  refuses every other text, a pydantic that coerces nothing, and a client that gives
  one reply text to every call.
\<close>

definition example_loads :: "string \<Rightarrow> pyerr + json" where
  \<open>example_loads s =
     (if s = ''{"feedback": [{"line": 3}]}'' then
        Inr (JDict [(''feedback'', JList [JDict [(''line'', JInt 3)]])])
      else if s = ''{"feedback": [{"category": "security", "severity": "high", "line": 3, "message": "m", "suggestion": "s", "filename": "other.py"}], "summary": "ok", "score": 7}'' then
        Inr (JDict
          [(''feedback'',
            JList
              [JDict
                 [(''category'', JStr ''security''), (''severity'', JStr ''high''),
                  (''line'', JInt 3), (''message'', JStr ''m''), (''suggestion'', JStr ''s''),
                  (''filename'', JStr ''other.py'')]]),
           (''summary'', JStr ''ok''),
           (''score'', JInt 7)])
      else if s = ''{"score": 179769313486231590772930519078902473361797697894230657273430081157732675805500963132708477322407536021120113879871393357658789768814416622492847430639474124377767893424865485276302219601246094119453082952085005768838150682342462881473913110540827237163350510684586298239947245938479716304835356329624224137216}'' then
        Inr (JDict [(''score'', JInt (2 ^ 1024))])
      else Inl JSONDecodeError)\<close>

definition example_externals :: externals where
  "example_externals =
     \<lparr>json_loads = example_loads, coerce_str = (\<lambda>_. None), coerce_int = (\<lambda>_. None),
      exc_text = (\<lambda>_. ''error'')\<rparr>"

definition one_reply :: "string \<Rightarrow> client" where
  "one_reply s = \<lparr>replies = (\<lambda>_. Inr (Some s)), calls = 0\<rparr>"

subsection \<open>Example files and clients\<close>

definition example_file :: FileInfo where
  "example_file = \<lparr>FileInfo.filename = ''a.py'', content = ''print(1)'', language = PYTHON\<rparr>"

definition failing_client :: client where
  "failing_client = \<lparr>replies = (\<lambda>_. Inl (OtherException ''service unavailable'')), calls = 0\<rparr>"

definition replies_of :: "reply list \<Rightarrow> client" where
  \<comment> \<open>a client whose first calls have the listed outcomes\<close>
  "replies_of rs = \<lparr>replies = (\<lambda>n. if n < length rs then rs ! n else Inr None), calls = 0\<rparr>"


definition example_replies :: "reply list" where
  \<open>example_replies =
     [Inr (Some ''{"feedback": [{"category": "security", "severity": "high", "line": 3, "message": "m", "suggestion": "s", "filename": "other.py"}], "summary": "ok", "score": 7}''),
      Inr (Some ''not json''),
      Inl (OtherException ''service unavailable'')]\<close>

definition other_file :: FileInfo where
  "other_file = \<lparr>FileInfo.filename = ''b.ts'', content = ''let x = 1'', language = TYPESCRIPT\<rparr>"

section \<open>Properties of the string operations\<close>

lemma find_aux_single: "find_aux [c] s i = -1 \<longleftrightarrow> c \<notin> set s"
  by (induction s arbitrary: i) (auto simp: startswith_def)

lemma contains_single: "contains s [c] \<longleftrightarrow> c \<in> set s"
  by (simp add: contains_def find_def find_aux_single)

lemma split_on_nonempty: "split_on c s \<noteq> []"
  by (induction s) (auto simp: Let_def)

lemma last_split_on_nodot: "c \<notin> set ext \<Longrightarrow> split_on c ext = [ext]"
  by (induction ext) (auto simp: Let_def)

lemma last_split_on: "c \<notin> set ext \<Longrightarrow> last (split_on c (pre @ c # ext)) = ext"
proof (induction pre)
  case Nil
  then show ?case by (simp add: Let_def last_split_on_nodot)
next
  case (Cons x pre)
  have ne: "tl (split_on c (pre @ c # ext)) \<noteq> []"
    by (induction pre) (auto simp: Let_def split_on_nonempty)
  with Cons show ?case
    by (auto simp: Let_def split_on_nonempty last_tl)
qed

lemma lower_char_dot: "lower_char c = CHR ''.'' \<longleftrightarrow> c = CHR ''.''"
proof
  assume h: "lower_char c = CHR ''.''"
  show "c = CHR ''.''"
  proof (rule ccontr)
    assume n: "c \<noteq> CHR ''.''"
    with h have up: "(65 \<le> (of_char c :: nat) \<and> (of_char c :: nat) \<le> 90) \<or> (192 \<le> (of_char c :: nat) \<and> (of_char c :: nat) \<le> 222 \<and> (of_char c :: nat) \<noteq> 215)"
      and eq: "char_of ((of_char c :: nat) + 32) = CHR ''.''"
      by (auto simp: lower_char_def Let_def split: if_splits)
    from eq have "(of_char (char_of ((of_char c :: nat) + 32)) :: nat) = of_char (CHR ''.'')"
      by simp
    then have "((of_char c :: nat) + 32) mod 256 = 46"
      by (simp add: of_char_of)
    moreover from up have "(of_char c :: nat) + 32 < 256" by linarith
    ultimately have "(of_char c :: nat) = 14" by simp
    with up show False by linarith
  qed
next
  assume "c = CHR ''.''"
  then show "lower_char c = CHR ''.''" by (simp add: lower_char_def)
qed

lemma dot_in_lower: "CHR ''.'' \<in> set (lower s) \<longleftrightarrow> CHR ''.'' \<in> set s"
  by (induction s) (simp_all add: lower_def lower_char_dot eq_commute [of "CHR ''.''"])

section \<open>Properties of language detection\<close>

lemma detect_no_dot:
  "CHR ''.'' \<notin> set fname \<Longrightarrow> detect_language_from_filename fname = PYTHON"
  by (simp add: detect_language_from_filename_def contains_single get_or_def extension_map_def)

lemma detect_suffix:
  assumes "fname = pre @ ''.'' @ ext" and "CHR ''.'' \<notin> set ext"
  shows "detect_language_from_filename fname = get_or extension_map (lower ext) PYTHON"
proof -
  have "contains fname ''.''"
    using assms by (simp add: contains_single)
  moreover have "lower fname = lower pre @ CHR ''.'' # lower ext"
    using assms by (simp add: lower_def lower_char_def)
  moreover have "CHR ''.'' \<notin> set (lower ext)"
    using assms by (simp add: dot_in_lower)
  ultimately show ?thesis
    by (simp add: detect_language_from_filename_def last_split_on)
qed

text \<open>
  Claim C10. \<open>detect_language_from_filename\<close> is a total function into
  \<open>SupportedLanguage\<close>. A file name without a dot is \<open>PYTHON\<close>; a file name with a
  dot is looked up in the extension table by the lower-cased text after its last dot, and
  is \<open>PYTHON\<close> when that text is not in the table; two file names that agree up to
  letter case get the same language.
\<close>

theorem detect_language_from_filename_spec:
  "(CHR ''.'' \<notin> set fname \<longrightarrow> detect_language_from_filename fname = PYTHON) \<and>
   (\<forall>pre ext. fname = pre @ ''.'' @ ext \<and> CHR ''.'' \<notin> set ext \<longrightarrow>
      detect_language_from_filename fname = get_or extension_map (lower ext) PYTHON \<and>
      (lower ext \<notin> fst ` set extension_map \<longrightarrow>
         detect_language_from_filename fname = PYTHON)) \<and>
   (\<forall>other. lower other = lower fname \<longrightarrow>
      detect_language_from_filename other = detect_language_from_filename fname)"
proof (intro conjI allI impI)
  assume "CHR ''.'' \<notin> set fname"
  then show "detect_language_from_filename fname = PYTHON" by (rule detect_no_dot)
next
  fix pre ext
  assume h: "fname = pre @ ''.'' @ ext \<and> CHR ''.'' \<notin> set ext"
  then show eq: "detect_language_from_filename fname = get_or extension_map (lower ext) PYTHON"
    by (simp add: detect_suffix)
  assume "lower ext \<notin> fst ` set extension_map"
  then have "map_of extension_map (lower ext) = None"
    by (simp add: map_of_eq_None_iff)
  with eq show "detect_language_from_filename fname = PYTHON"
    by (simp add: get_or_def)
next
  fix other
  assume h: "lower other = lower fname"
  have "contains other ''.'' = contains fname ''.''"
    using dot_in_lower [of other] dot_in_lower [of fname] h by (simp add: contains_single)
  with h show "detect_language_from_filename other = detect_language_from_filename fname"
    by (simp add: detect_language_from_filename_def)
qed

theorem detect_language_from_filename_spec_witness:
  "detect_language_from_filename ''Makefile'' = PYTHON \<and>
   detect_language_from_filename ''Main.TSX'' = TYPESCRIPT \<and>
   detect_language_from_filename ''notes.v2.TXT'' = PYTHON \<and>
   detect_language_from_filename ''MAIN.tsx'' = detect_language_from_filename ''Main.TSX''"
proof -
  have a: "CHR ''.'' \<notin> set ''Makefile''" by simp
  have b: "''Main.TSX'' = ''Main'' @ ''.'' @ ''TSX'' \<and> CHR ''.'' \<notin> set ''TSX''" by simp
  have b': "get_or extension_map (lower ''TSX'') PYTHON = TYPESCRIPT" by code_simp
  have c: "''notes.v2.TXT'' = ''notes.v2'' @ ''.'' @ ''TXT'' \<and> CHR ''.'' \<notin> set ''TXT''" by simp
  have c': "lower ''TXT'' \<notin> fst ` set extension_map" by code_simp
  have d: "lower ''MAIN.tsx'' = lower ''Main.TSX''" by code_simp
  show ?thesis
    using detect_language_from_filename_spec [of "''Makefile''"] a
      detect_language_from_filename_spec [of "''Main.TSX''"] b b' d
      detect_language_from_filename_spec [of "''notes.v2.TXT''"] c c'
    by metis
qed

section \<open>Properties of the project summary\<close>

lemma sum_feedback_lengths:
  "sum_list (map (\<lambda>fa. length (feedback fa)) fas) = length (concat (map feedback fas))"
  by (induction fas) simp_all

lemma sum_high_lengths:
  "sum_list (map (\<lambda>fa. length (filter P (feedback fa))) fas)
     = length (filter P (concat (map feedback fas)))"
  by (induction fas) simp_all

lemma generate_overall_summary_eq:
  "generate_overall_summary fas cross =
     (if length (all_issues fas cross) = 0 then excellent_narrative
      else if length (high_issues fas cross) > 0
      then attention_narrative (length (all_issues fas cross)) (length (high_issues fas cross))
      else improvement_narrative (length (all_issues fas cross)))"
  unfolding generate_overall_summary_def sum_feedback_lengths sum_high_lengths
    all_issues_def high_issues_def excellent_narrative_def attention_narrative_def
    improvement_narrative_def Let_def
  by simp

lemma narratives_distinct:
  "attention_narrative t h \<noteq> excellent_narrative"
  "improvement_narrative t \<noteq> excellent_narrative"
  "improvement_narrative t \<noteq> attention_narrative t' h"
  by (simp_all add: attention_narrative_def improvement_narrative_def excellent_narrative_def)

text \<open>
  Claim C6. The summary is the "Excellent codebase!" narrative exactly when there is no
  issue at all, per-file and cross-file together. When there is an issue, it is the
  "Codebase needs attention" narrative, naming the number of issues and the number of
  high-severity ones, exactly when some issue has severity \<open>high\<close>, and the "Good codebase
  with room for improvement" narrative when none has.
\<close>

theorem generate_overall_summary_narrative:
  "(generate_overall_summary fas cross = excellent_narrative
      \<longleftrightarrow> length (all_issues fas cross) = 0) \<and>
   (length (all_issues fas cross) \<noteq> 0 \<longrightarrow>
      (generate_overall_summary fas cross
         = attention_narrative (length (all_issues fas cross)) (length (high_issues fas cross))
       \<longleftrightarrow> (\<exists>f \<in> set (all_issues fas cross). severity f = ''high'')) \<and>
      ((\<forall>f \<in> set (all_issues fas cross). severity f \<noteq> ''high'') \<longrightarrow>
       generate_overall_summary fas cross
         = improvement_narrative (length (all_issues fas cross))))"
proof -
  have h: "length (high_issues fas cross) > 0
             \<longleftrightarrow> (\<exists>f \<in> set (all_issues fas cross). severity f = ''high'')"
    by (auto simp: high_issues_def filter_empty_conv)
  show ?thesis
    unfolding generate_overall_summary_eq using h narratives_distinct
    by (auto simp del: length_0_conv length_greater_0_conv)
qed

theorem generate_overall_summary_narrative_witness:
  "generate_overall_summary
     [\<lparr>filename = ''a.py'',
       feedback = [\<lparr>category = ''security'', severity = ''high'', line = 3,
                    message = ''m'', suggestion = ''s'', filename = Some ''a.py''\<rparr>],
       summary = ''x'', score = 4\<rparr>]
     [\<lparr>category = ''style'', severity = ''low'', line = 1,
       message = ''m'', suggestion = ''s'', filename = Some ''multiple_files''\<rparr>]
     = attention_narrative 2 1 \<and>
   generate_overall_summary []
     [\<lparr>category = ''style'', severity = ''low'', line = 1,
       message = ''m'', suggestion = ''s'', filename = Some ''multiple_files''\<rparr>]
     = improvement_narrative 1"
  using generate_overall_summary_narrative
          [of "[\<lparr>filename = ''a.py'',
                 feedback = [\<lparr>category = ''security'', severity = ''high'', line = 3,
                              message = ''m'', suggestion = ''s'', filename = Some ''a.py''\<rparr>],
                 summary = ''x'', score = 4\<rparr>]"
              "[\<lparr>category = ''style'', severity = ''low'', line = 1,
                 message = ''m'', suggestion = ''s'', filename = Some ''multiple_files''\<rparr>]"]
        generate_overall_summary_narrative
          [of "[]"
              "[\<lparr>category = ''style'', severity = ''low'', line = 1,
                 message = ''m'', suggestion = ''s'', filename = Some ''multiple_files''\<rparr>]"]
  by (simp add: all_issues_def high_issues_def numeral_2_eq_2)

section \<open>Properties of the project score\<close>

subsection \<open>Rounding to an integer and to a binary64 number\<close>

lemma round_half_even_low:
  "of_int f \<le> r \<Longrightarrow> r < of_int f + 1 / 2 \<Longrightarrow> round_half_even r = f"
proof -
  assume a: "of_int f \<le> r" and b: "r < of_int f + 1 / 2"
  have "\<lfloor>r\<rfloor> = f" using a b by (simp add: floor_unique)
  then show ?thesis using b by (simp add: round_half_even_def Let_def)
qed

lemma round_half_even_high:
  "of_int f + 1 / 2 < r \<Longrightarrow> r \<le> of_int f + 1 \<Longrightarrow> round_half_even r = f + 1"
proof (cases "r = of_int f + 1")
  case True
  then have "r = of_int (f + 1)" by simp
  then show ?thesis by (simp only: round_half_even_def Let_def floor_of_int) simp
next
  case False
  assume a: "of_int f + 1 / 2 < r" and b: "r \<le> of_int f + 1"
  with False have "\<lfloor>r\<rfloor> = f" by (simp add: floor_unique)
  then show ?thesis using a by (simp add: round_half_even_def Let_def)
qed

lemma round_half_even_of_int: "round_half_even (of_int k) = k"
  by (simp add: round_half_even_def)

lemma round_half_even_error: "\<bar>of_int (round_half_even x) - x\<bar> \<le> 1 / 2"
proof -
  have "of_int \<lfloor>x\<rfloor> \<le> x" "x < of_int \<lfloor>x\<rfloor> + 1" by linarith+
  then show ?thesis
    unfolding round_half_even_def Let_def by (simp add: abs_le_iff)
qed

lemma bitlen_powi:
  assumes "0 < a"
  shows "(2::rat) powi (bitlen a - 1) \<le> of_int a" and "of_int a < (2::rat) powi (bitlen a)"
proof -
  from assms have pos: "0 < bitlen a"
    using bitlen_eq_zero_iff [of a] bitlen_nonneg [of a] by linarith
  from bitlen_bounds [OF assms]
  have lo: "2 ^ nat (bitlen a - 1) \<le> a" and hi: "a < 2 ^ nat (bitlen a)" by simp_all
  have "(2::rat) powi (bitlen a - 1) = 2 ^ nat (bitlen a - 1)"
    using pos by (simp add: power_int_def)
  also have "\<dots> = of_int (2 ^ nat (bitlen a - 1))" by simp
  also have "\<dots> \<le> of_int a" using lo by (simp only: of_int_le_iff)
  finally show "(2::rat) powi (bitlen a - 1) \<le> of_int a" .
  have "(of_int a :: rat) < of_int (2 ^ nat (bitlen a))" using hi by (simp only: of_int_less_iff)
  also have "\<dots> = 2 ^ nat (bitlen a)" by simp
  also have "\<dots> = (2::rat) powi (bitlen a)" using pos by (simp add: power_int_def)
  finally show "of_int a < (2::rat) powi (bitlen a)" .
qed

lemma floor_log2_bounds:
  assumes "x \<noteq> 0"
  shows "2 powi (floor_log2 x) \<le> \<bar>x\<bar>" and "\<bar>x\<bar> < 2 powi (floor_log2 x + 1)"
proof -
  obtain a b where ab: "quotient_of \<bar>x\<bar> = (a, b)" by (cases "quotient_of \<bar>x\<bar>")
  then have b: "0 < b" and x: "\<bar>x\<bar> = of_int a / of_int b"
    by (simp_all add: quotient_of_denom_pos quotient_of_div)
  have "0 < \<bar>x\<bar>" using assms by simp
  with x b have a: "0 < a" by (simp add: zero_less_divide_iff)
  define d where "d = bitlen a - bitlen b"
  note la = bitlen_powi [OF a] and lb = bitlen_powi [OF b]
  have bpos: "(0::rat) < of_int b" using b by simp
  have "(2::rat) powi (d - 1) = 2 powi (bitlen a - 1) / 2 powi (bitlen b)"
    by (simp add: d_def power_int_diff [symmetric] algebra_simps)
  also have "\<dots> \<le> of_int a / of_int b"
    using la(1) lb(2) bpos a by (intro frac_le) simp_all
  finally have lo: "(2::rat) powi (d - 1) \<le> \<bar>x\<bar>" by (simp add: x)
  have "of_int a / of_int b < (2::rat) powi (bitlen a) / 2 powi (bitlen b - 1)"
    using la(2) lb(1) bpos a by (intro frac_less) simp_all
  also have "\<dots> = (2::rat) powi (d + 1)"
    by (simp add: d_def power_int_diff [symmetric] algebra_simps)
  finally have hi: "\<bar>x\<bar> < (2::rat) powi (d + 1)" by (simp add: x)
  have e: "floor_log2 x = (if 2 powi d \<le> \<bar>x\<bar> then d else d - 1)"
    by (simp add: floor_log2_def ab d_def)
  show "2 powi (floor_log2 x) \<le> \<bar>x\<bar>" using lo by (simp add: e)
  show "\<bar>x\<bar> < 2 powi (floor_log2 x + 1)" using hi by (auto simp add: e)
qed

lemma round_half_even_ge: "of_int k \<le> y \<Longrightarrow> k \<le> round_half_even y"
proof -
  assume "of_int k \<le> y"
  then have "k \<le> \<lfloor>y\<rfloor>" by (simp add: le_floor_iff)
  then show ?thesis by (simp add: round_half_even_def Let_def)
qed

lemma round_half_even_le: "y \<le> of_int k \<Longrightarrow> round_half_even y \<le> k"
proof (cases "y = of_int k")
  case True
  then show ?thesis by (simp add: round_half_even_of_int)
next
  case False
  assume "y \<le> of_int k"
  with False have "y < of_int k" by simp
  then have "\<lfloor>y\<rfloor> < k" by (simp add: floor_less_iff)
  then show ?thesis by (simp add: round_half_even_def Let_def)
qed

lemma round_half_even_small: "\<bar>x\<bar> < 1 / 2 \<Longrightarrow> round_half_even x = 0"
proof (cases "0 \<le> x")
  case True
  assume "\<bar>x\<bar> < 1 / 2"
  with True show ?thesis using round_half_even_low [of 0 x] by simp
next
  case False
  assume "\<bar>x\<bar> < 1 / 2"
  with False show ?thesis using round_half_even_high [of "-1" x] by simp
qed

lemma grid_round_close:
  assumes "0 < g"
  shows "\<bar>of_int (round_half_even (x / g)) * g - x\<bar> \<le> g / 2"
proof -
  have "of_int (round_half_even (x / g)) * g - x
          = (of_int (round_half_even (x / g)) - x / g) * g"
    using assms by (simp add: left_diff_distrib)
  then have "\<bar>of_int (round_half_even (x / g)) * g - x\<bar>
          = \<bar>of_int (round_half_even (x / g)) - x / g\<bar> * g"
    using assms by (simp add: abs_mult)
  also have "\<dots> \<le> (1 / 2) * g"
    using round_half_even_error [of "x / g"] assms by (intro mult_right_mono) simp_all
  finally show ?thesis by simp
qed

lemma frac_gap:
  fixes s n :: int
  assumes n: "0 < n" and q: "q = (of_int s :: rat) / of_int n"
  shows "q - of_int \<lfloor>q\<rfloor> < 1 / 2 \<Longrightarrow> q - of_int \<lfloor>q\<rfloor> + 1 / (2 * of_int n) \<le> 1 / 2"
    and "1 / 2 < q - of_int \<lfloor>q\<rfloor> \<Longrightarrow> 1 / 2 + 1 / (2 * of_int n) \<le> q - of_int \<lfloor>q\<rfloor>"
proof -
  define t where "t = s - \<lfloor>q\<rfloor> * n"
  have np: "(0::rat) < of_int n" using n by simp
  have d: "q - of_int \<lfloor>q\<rfloor> = of_int t / of_int n"
    using np by (simp add: t_def q field_simps)
  {
    assume "q - of_int \<lfloor>q\<rfloor> < 1 / 2"
    then have "(of_int (2 * t) :: rat) < of_int n" using np by (simp add: d field_simps)
    then have "2 * t < n" by (simp only: of_int_less_iff)
    then have "2 * t + 1 \<le> n" by simp
    then have "(of_int (2 * t + 1) :: rat) \<le> of_int n" by (simp only: of_int_le_iff)
    then have "(of_int (2 * t + 1) :: rat) / (2 * of_int n) \<le> of_int n / (2 * of_int n)"
      using np by (intro divide_right_mono) simp_all
    moreover have "(of_int (2 * t + 1) :: rat) / (2 * of_int n)
                     = of_int t / of_int n + 1 / (2 * of_int n)"
      using np by (simp add: field_simps)
    moreover have "(of_int n :: rat) / (2 * of_int n) = 1 / 2"
      using np by simp
    ultimately show "q - of_int \<lfloor>q\<rfloor> + 1 / (2 * of_int n) \<le> 1 / 2"
      by (simp only: d)
  }
  {
    assume "1 / 2 < q - of_int \<lfloor>q\<rfloor>"
    then have "(of_int n :: rat) < of_int (2 * t)" using np by (simp add: d field_simps)
    then have "n < 2 * t" by (simp only: of_int_less_iff)
    then have "n + 1 \<le> 2 * t" by simp
    then have "(of_int (n + 1) :: rat) \<le> of_int (2 * t)" by (simp only: of_int_le_iff)
    then have "(of_int (n + 1) :: rat) / (2 * of_int n) \<le> of_int (2 * t) / (2 * of_int n)"
      using np by (intro divide_right_mono) simp_all
    moreover have "(of_int (n + 1) :: rat) / (2 * of_int n) = 1 / 2 + 1 / (2 * of_int n)"
      using np by (simp add: field_simps)
    moreover have "(of_int (2 * t) :: rat) / (2 * of_int n) = of_int t / of_int n"
      by simp
    ultimately show "1 / 2 + 1 / (2 * of_int n) \<le> q - of_int \<lfloor>q\<rfloor>"
      by (simp only: d)
  }
qed

lemma half_on_grid:
  assumes "p \<le> - 1"
  shows "\<exists>h::int. of_int h * (2::rat) powi p = 1 / 2"
proof -
  have "(2::rat) powi (- 1 - p) = 2 ^ nat (- 1 - p)"
    using assms by (simp add: power_int_nonneg_exp)
  then have "of_int (2 ^ nat (- 1 - p)) * (2::rat) powi p = 2 powi (- 1 - p) * 2 powi p"
    by simp
  also have "\<dots> = (2::rat) powi (- 1)"
    by (simp add: power_int_add [symmetric])
  also have "\<dots> = 1 / 2"
    by (simp add: power_int_minus_divide)
  finally show ?thesis by blast
qed

lemma to_double_exact_round:
  fixes s n :: int
  assumes n: "0 < n" and s: "\<bar>s\<bar> < 2 ^ 52" and q: "q = (of_int s :: rat) / of_int n"
  shows "\<exists>r. to_double q = Inr r \<and> round_half_even r = round_half_even q"
proof (cases "q = 0")
  case True
  then show ?thesis by (simp add: to_double_def)
next
  case False
  define e where "e = floor_log2 q"
  define p where "p = max (e - 52) (- 1074)"
  define g where "g = (2::rat) powi p"
  define m where "m = round_half_even (q / g)"
  define r where "r = of_int m * g"
  have gpos: "0 < g" by (simp add: g_def)
  have np: "(1::rat) \<le> of_int n" using n by simp
  have "\<bar>q\<bar> = of_int \<bar>s\<bar> / of_int n" using n by (simp add: q)
  also have "\<dots> \<le> of_int \<bar>s\<bar> / 1" using np by (intro divide_left_mono) simp_all
  finally have qs: "\<bar>q\<bar> \<le> of_int \<bar>s\<bar>" by simp
  have "(of_int \<bar>s\<bar> :: rat) < of_int (2 ^ 52)" using s by (simp only: of_int_less_iff)
  with qs have qlt: "\<bar>q\<bar> < 2 ^ 52" by simp
  have e_lo: "2 powi e \<le> \<bar>q\<bar>" and e_hi: "\<bar>q\<bar> < 2 powi (e + 1)"
    using floor_log2_bounds [OF False] by (simp_all add: e_def)
  have "(2::rat) powi e < 2 powi 52" using e_lo qlt by simp
  then have e51: "e \<le> 51" using power_int_le_imp_less_exp [of "2::rat" e 52] by simp
  then have p1: "p \<le> - 1" by (simp add: p_def)
  have "g \<le> (2::rat) powi (- 1)" unfolding g_def using p1 by (intro power_int_increasing) simp_all
  then have ghalf: "g \<le> 1 / 2" by (simp add: power_int_minus_divide)
  have close: "\<bar>r - q\<bar> \<le> g / 2"
    unfolding r_def m_def using grid_round_close [OF gpos] .
  have "\<bar>r\<bar> \<le> \<bar>q\<bar> + g / 2" using close by linarith
  also have "\<dots> < 2 ^ 52 + 1" using qlt ghalf by linarith
  also have "\<dots> \<le> (2::rat) ^ 1024" by simp
  finally have no_overflow: "\<not> 2 ^ 1024 \<le> \<bar>r\<bar>" by simp
  have td: "to_double q = Inr r"
    using False no_overflow
    by (simp add: to_double_def Let_def e_def [symmetric] p_def [symmetric] g_def [symmetric]
          m_def [symmetric] r_def [symmetric])
  obtain h :: int where h: "of_int h * g = 1 / 2"
    using half_on_grid [OF p1] by (auto simp: g_def)
  have grid_mult: "of_int (2 * h * k) * g = of_int k" for k :: int
  proof -
    have "of_int (2 * h * k) * g = of_int k * (2 * (of_int h * g))" by simp
    also have "\<dots> = of_int k" by (simp only: h)
    finally show ?thesis .
  qed
  have grid_int: "of_int k / g = of_int (2 * h * k)" for k :: int
    using grid_mult [of k] gpos by (simp add: field_simps)
  have grid_half: "(of_int k + 1 / 2) / g = of_int ((2 * k + 1) * h)" for k :: int
  proof -
    have "of_int ((2 * k + 1) * h) * g = (2 * of_int k + 1) * (of_int h * g)" by simp
    also have "\<dots> = of_int k + 1 / 2" by (simp only: h) (simp add: field_simps)
    finally show ?thesis using gpos by (simp add: field_simps)
  qed
  have "round_half_even r = round_half_even q"
  proof (cases "p = e - 52")
    case False
    then have "e + 1 \<le> - 1021" by (simp add: p_def max_def split: if_splits)
    then have "(2::rat) powi (e + 1) \<le> 2 powi (- 2)"
      by (intro power_int_increasing) simp_all
    then have "\<bar>q\<bar> < 1 / 4" using e_hi by (simp add: power_int_minus_divide)
    moreover from this close ghalf have "\<bar>r\<bar> < 1 / 2" by linarith
    ultimately show ?thesis by (simp add: round_half_even_small)
  next
    case True
    have "g = 2 powi e / 2 ^ 52" by (simp add: g_def True power_int_diff)
    also have "\<dots> \<le> \<bar>q\<bar> / 2 ^ 52" using e_lo by (intro divide_right_mono) simp_all
    finally have "g * of_int n \<le> \<bar>q\<bar> * of_int n / 2 ^ 52"
      using n by (simp add: field_simps)
    also have "\<bar>q\<bar> * of_int n = of_int \<bar>s\<bar>" using n by (simp add: q)
    also have "(of_int \<bar>s\<bar> :: rat) / 2 ^ 52 < 2 ^ 52 / 2 ^ 52"
      using \<open>(of_int \<bar>s\<bar> :: rat) < of_int (2 ^ 52)\<close> by (intro divide_strict_right_mono) simp_all
    finally have gn: "g * of_int n < 1" by simp
    have n0: "(0::rat) < of_int n" using n by simp
    have gap: "g / 2 < 1 / (2 * of_int n)" using gn n0 by (simp add: field_simps)
    define f where "f = \<lfloor>q\<rfloor>"
    have fq: "of_int f \<le> q" "q < of_int f + 1" unfolding f_def by linarith+
    consider "q - of_int f < 1 / 2" | "q - of_int f = 1 / 2" | "1 / 2 < q - of_int f"
      by linarith
    then show ?thesis
    proof cases
      case 1
      have Rq: "round_half_even q = f" using fq 1 by (intro round_half_even_low) simp_all
      have "q - of_int f + 1 / (2 * of_int n) \<le> 1 / 2"
        using frac_gap(1) [OF n q] 1 by (simp add: f_def)
      with close gap have hi: "r < of_int f + 1 / 2" by linarith
      have "of_int f / g \<le> q / g" using fq(1) gpos by (intro divide_right_mono) simp_all
      then have "of_int (2 * h * f) \<le> q / g" by (simp only: grid_int)
      then have "2 * h * f \<le> m" unfolding m_def by (rule round_half_even_ge)
      then have "(of_int (2 * h * f) :: rat) \<le> of_int m" by (simp only: of_int_le_iff)
      then have "of_int (2 * h * f) * g \<le> r" unfolding r_def using gpos by (intro mult_right_mono) simp_all
      then have lo: "of_int f \<le> r" by (simp only: grid_mult)
      from lo hi have "round_half_even r = f" by (rule round_half_even_low)
      with Rq show ?thesis by simp
    next
      case 2
      then have "q = of_int f + 1 / 2" by simp
      then have "q / g = of_int ((2 * f + 1) * h)" by (simp only: grid_half)
      then have "m = (2 * f + 1) * h" by (simp only: m_def round_half_even_of_int)
      then have "r = of_int ((2 * f + 1) * h) * g" by (simp add: r_def)
      also have "\<dots> = q" using \<open>q / g = of_int ((2 * f + 1) * h)\<close> gpos by (simp add: field_simps)
      finally show ?thesis by simp
    next
      case 3
      have Rq: "round_half_even q = f + 1" using fq 3 by (intro round_half_even_high) simp_all
      have "1 / 2 + 1 / (2 * of_int n) \<le> q - of_int f"
        using frac_gap(2) [OF n q] 3 by (simp add: f_def)
      with close gap have lo: "of_int f + 1 / 2 < r" by linarith
      have "q / g \<le> of_int (f + 1) / g" using fq(2) gpos by (intro divide_right_mono) simp_all
      then have "q / g \<le> of_int (2 * h * (f + 1))" by (simp only: grid_int)
      then have "m \<le> 2 * h * (f + 1)" unfolding m_def by (rule round_half_even_le)
      then have "(of_int m :: rat) \<le> of_int (2 * h * (f + 1))" by (simp only: of_int_le_iff)
      then have "r \<le> of_int (2 * h * (f + 1)) * g" unfolding r_def using gpos by (intro mult_right_mono) simp_all
      then have "r \<le> of_int (f + 1)" by (simp only: grid_mult)
      then have hi: "r \<le> of_int f + 1" by simp
      from lo hi have "round_half_even r = f + 1" by (rule round_half_even_high)
      with Rq show ?thesis by simp
    qed
  qed
  with td show ?thesis by blast
qed

lemma round_half_even_tie:
  "\<bar>of_int (round_half_even x) - x\<bar> = 1 / 2 \<Longrightarrow> even (round_half_even x)"
proof -
  assume a: "\<bar>of_int (round_half_even x) - x\<bar> = 1 / 2"
  have fl: "of_int \<lfloor>x\<rfloor> \<le> x" "x < of_int \<lfloor>x\<rfloor> + 1" by linarith+
  consider "x - of_int \<lfloor>x\<rfloor> < 1 / 2" | "x - of_int \<lfloor>x\<rfloor> = 1 / 2" | "1 / 2 < x - of_int \<lfloor>x\<rfloor>"
    by linarith
  then show ?thesis
  proof cases
    case 1
    then have "round_half_even x = \<lfloor>x\<rfloor>" by (simp add: round_half_even_def Let_def)
    with a 1 fl show ?thesis by simp
  next
    case 2
    then show ?thesis by (simp add: round_half_even_def Let_def)
  next
    case 3
    then have "round_half_even x = \<lfloor>x\<rfloor> + 1" by (simp add: round_half_even_def Let_def)
    with a 3 fl show ?thesis by simp
  qed
qed

lemma floor_log2_unique:
  assumes "x \<noteq> 0" and lo: "2 powi e \<le> \<bar>x\<bar>" and hi: "\<bar>x\<bar> < 2 powi (e + 1)"
  shows "floor_log2 x = e"
proof -
  note b = floor_log2_bounds [OF assms(1)]
  have "(2::rat) powi (floor_log2 x) < 2 powi (e + 1)" using b(1) hi by linarith
  then have "floor_log2 x < e + 1"
    by (metis linorder_not_less one_le_numeral power_int_increasing)
  moreover have "(2::rat) powi e < 2 powi (floor_log2 x + 1)" using b(2) lo by linarith
  then have "e < floor_log2 x + 1"
    by (metis linorder_not_less one_le_numeral power_int_increasing)
  ultimately show ?thesis by simp
qed

lemma floor_log2_example: "floor_log2 9007199254740993 = 53"
  by (rule floor_log2_unique) simp_all

lemma round_half_even_tie_even:
  "x = of_int f + 1 / 2 \<Longrightarrow> even f \<Longrightarrow> round_half_even x = f"
proof -
  assume x: "x = of_int f + 1 / 2" and f: "even f"
  have "\<lfloor>x\<rfloor> = f" unfolding x by (rule floor_unique) simp_all
  then show ?thesis using x f by (simp add: round_half_even_def Let_def)
qed

lemma round_half_even_example: "round_half_even (9007199254740993 / 2) = 4503599627370496"
  by (rule round_half_even_tie_even) simp_all

lemma to_double_example: "to_double 9007199254740993 = Inr 9007199254740992"
  by (simp add: to_double_def floor_log2_example Let_def round_half_even_example)

lemma to_double_overflow:
  assumes big: "2 ^ 1024 \<le> \<bar>x\<bar>"
  shows "to_double x = Inl OverflowError"
proof -
  have x0: "x \<noteq> 0" using big by auto
  define e where "e = floor_log2 x"
  define g where "g = (2::rat) powi (e - 52)"
  define m where "m = round_half_even (x / g)"
  have gpos: "0 < g" by (simp add: g_def)
  have e_lo: "2 powi e \<le> \<bar>x\<bar>" and e_hi: "\<bar>x\<bar> < 2 powi (e + 1)"
    using floor_log2_bounds [OF x0] by (simp_all add: e_def)
  have "(2::rat) powi 1024 < 2 powi (e + 1)" using big e_hi by simp
  then have e1024: "1024 \<le> e"
    using power_int_increasing [of "e + 1" 1024 "2::rat"] by (cases "1024 \<le> e") auto
  then have p: "max (e - 52) (- 1074) = e - 52" by simp
  have step: "of_int (2 ^ 52) * g = (2::rat) powi e"
    by (simp add: g_def power_int_diff)
  have "2 powi e \<le> \<bar>of_int m * g\<bar>"
  proof (cases "0 \<le> x")
    case True
    then have "2 powi e \<le> x" using e_lo by simp
    then have "of_int (2 ^ 52) * g / g \<le> x / g"
      unfolding step using gpos by (intro divide_right_mono) simp_all
    then have "of_int (2 ^ 52) \<le> x / g" using gpos by simp
    then have "2 ^ 52 \<le> m" unfolding m_def by (rule round_half_even_ge)
    then have "(of_int (2 ^ 52) :: rat) \<le> of_int m" by (simp only: of_int_le_iff)
    then have "of_int (2 ^ 52) * g \<le> of_int m * g" using gpos by (intro mult_right_mono) simp_all
    then have "2 powi e \<le> of_int m * g" by (simp only: step)
    then show ?thesis by linarith
  next
    case False
    then have "x \<le> - (2 powi e)" using e_lo by simp
    then have "x / g \<le> - (of_int (2 ^ 52) * g) / g"
      unfolding step using gpos by (intro divide_right_mono) simp_all
    then have "x / g \<le> of_int (- (2 ^ 52))" using gpos by simp
    then have "m \<le> - (2 ^ 52)" unfolding m_def by (rule round_half_even_le)
    then have "(of_int m :: rat) \<le> of_int (- (2 ^ 52))" by (simp only: of_int_le_iff)
    then have "of_int m * g \<le> of_int (- (2 ^ 52)) * g" using gpos by (intro mult_right_mono) simp_all
    also have "\<dots> = - (of_int (2 ^ 52) * g)" by simp
    finally have "of_int m * g \<le> - (2 powi e)" by (simp only: step)
    moreover have "(0::rat) < 2 powi e" by simp
    ultimately show ?thesis by linarith
  qed
  moreover have "(2::rat) powi 1024 \<le> 2 powi e" using e1024 by (intro power_int_increasing) simp_all
  ultimately have "2 ^ 1024 \<le> \<bar>of_int m * g\<bar>" by simp
  then show ?thesis
    using x0 by (simp add: to_double_def Let_def e_def [symmetric] p g_def [symmetric] m_def [symmetric])
qed

lemma to_double_finite:
  assumes small: "\<bar>x\<bar> < 2 ^ 1023"
  shows "\<exists>r. to_double x = Inr r"
proof (cases "x = 0")
  case True
  then show ?thesis by (simp add: to_double_def)
next
  case False
  define e where "e = floor_log2 x"
  define p where "p = max (e - 52) (- 1074)"
  define g where "g = (2::rat) powi p"
  define r where "r = of_int (round_half_even (x / g)) * g"
  have gpos: "0 < g" by (simp add: g_def)
  have e_lo: "2 powi e \<le> \<bar>x\<bar>"
    using floor_log2_bounds [OF False] by (simp_all add: e_def)
  then have "(2::rat) powi e < 2 powi 1023" using small by simp
  then have e1022: "e \<le> 1022" using power_int_le_imp_less_exp [of "2::rat" e 1023] by simp
  then have "p \<le> 970" by (simp add: p_def)
  then have "g \<le> (2::rat) powi 970" unfolding g_def by (intro power_int_increasing) simp_all
  then have g970: "g \<le> 2 ^ 970" by simp
  have close: "\<bar>r - x\<bar> \<le> g / 2" unfolding r_def using grid_round_close [OF gpos] .
  then have "\<bar>r\<bar> \<le> \<bar>x\<bar> + g / 2" by linarith
  moreover have "g / 2 \<le> g" using gpos by simp
  ultimately have "\<bar>r\<bar> \<le> \<bar>x\<bar> + g" by (rule order_trans [OF _ add_left_mono])
  also have "\<dots> < 2 ^ 1023 + 2 ^ 970" using small g970 by (rule add_less_le_mono)
  also have "\<dots> \<le> (2::rat) ^ 1024" by simp
  finally have "\<not> 2 ^ 1024 \<le> \<bar>r\<bar>" by (simp only: not_le)
  then have "to_double x = Inr r"
    using False
    by (simp add: to_double_def Let_def e_def [symmetric] p_def [symmetric] g_def [symmetric]
          r_def [symmetric])
  then show ?thesis by blast
qed

subsection \<open>The score of a project\<close>

text \<open>
  Claim C3, as amended. The score of an empty list of file analyses is 5. When the
  per-file scores sum to less than \<open>2^52\<close> in magnitude, the score is the arithmetic
  mean of the per-file scores rounded to the nearest integer, a tie going to the even
  integer.
\<close>

theorem calculate_overall_score_mean:
  "(file_analyses = [] \<longrightarrow> calculate_overall_score file_analyses = Inr 5) \<and>
   (file_analyses \<noteq> [] \<and> \<bar>sum_list (map score file_analyses)\<bar> < 2 ^ 52 \<longrightarrow>
      (\<exists>r. calculate_overall_score file_analyses = Inr r \<and>
           r = round_half_even (mean_score file_analyses) \<and>
           \<bar>of_int r - mean_score file_analyses\<bar> \<le> 1 / 2 \<and>
           (\<bar>of_int r - mean_score file_analyses\<bar> = 1 / 2 \<longrightarrow> even r)))"
proof (intro conjI impI)
  assume "file_analyses = []"
  then show "calculate_overall_score file_analyses = Inr 5"
    by (simp add: calculate_overall_score_def)
next
  assume h: "file_analyses \<noteq> [] \<and> \<bar>sum_list (map score file_analyses)\<bar> < 2 ^ 52"
  then have n: "0 < int (length file_analyses)" by simp
  obtain d where d: "to_double (mean_score file_analyses) = Inr d"
    and dr: "round_half_even d = round_half_even (mean_score file_analyses)"
    using to_double_exact_round [OF n, of "sum_list (map score file_analyses)"
            "mean_score file_analyses"] h
    by (auto simp: mean_score_def)
  have "calculate_overall_score file_analyses
          = Inr (round_half_even (mean_score file_analyses))"
    using h d dr
    by (simp add: calculate_overall_score_def true_div_def and_then_def mean_score_def)
  then show "\<exists>r. calculate_overall_score file_analyses = Inr r \<and>
           r = round_half_even (mean_score file_analyses) \<and>
           \<bar>of_int r - mean_score file_analyses\<bar> \<le> 1 / 2 \<and>
           (\<bar>of_int r - mean_score file_analyses\<bar> = 1 / 2 \<longrightarrow> even r)"
    using round_half_even_error [of "mean_score file_analyses"]
      round_half_even_tie [of "mean_score file_analyses"]
    by simp
qed

theorem calculate_overall_score_mean_witness:
  "calculate_overall_score [] = Inr 5 \<and>
   calculate_overall_score
     [\<lparr>filename = ''a.py'', feedback = [], summary = ''ok'', score = 4\<rparr>,
      \<lparr>filename = ''b.py'', feedback = [], summary = ''ok'', score = 5\<rparr>] = Inr 4"
  using calculate_overall_score_mean [of "[]"]
    calculate_overall_score_mean
     [of "[\<lparr>filename = ''a.py'', feedback = [], summary = ''ok'', score = 4\<rparr>,
      \<lparr>filename = ''b.py'', feedback = [], summary = ''ok'', score = 5\<rparr>]"]
    round_half_even_tie_even [of "9 / 2" 4]
  by (simp add: mean_score_def)

text \<open>
  The claim as stated fails for large scores: the mean is computed in binary64. One
  file of score \<open>2^53 + 1\<close> has that mean, an integer, and the project score \<open>2^53\<close>.
\<close>

theorem calculate_overall_score_counterexample:
  "calculate_overall_score
     [\<lparr>filename = ''a.py'', feedback = [], summary = ''ok'', score = 9007199254740993\<rparr>]
     = Inr 9007199254740992 \<and>
   mean_score
     [\<lparr>filename = ''a.py'', feedback = [], summary = ''ok'', score = 9007199254740993\<rparr>]
     = 9007199254740993"
  using round_half_even_of_int [of 9007199254740992]
  by (simp add: calculate_overall_score_def true_div_def and_then_def to_double_example
        mean_score_def)

section \<open>Properties of the single-file review\<close>

lemma map_of_set_item: "map_of (set_item k v d) = (map_of d)(k \<mapsto> v)"
  by (induction d) (auto simp: fun_eq_iff)

lemma has_key_set_item: "has_key (set_item k v d) k' \<longleftrightarrow> k' = k \<or> has_key d k'"
  by (simp add: has_key_def map_of_set_item)

lemma map_of_setdefault:
  "map_of (setdefault k v d) k' = (if k' = k \<and> \<not> has_key d k then Some v else map_of d k')"
  by (auto simp: setdefault_def has_key_def map_add_def split: option.splits)

lemma has_key_setdefault: "has_key (setdefault k v d) k' \<longleftrightarrow> k' = k \<or> has_key d k'"
  by (auto simp: has_key_def map_of_setdefault)

lemma traverse_Inr:
  "traverse f xs = Inr ys \<Longrightarrow> list_all2 (\<lambda>x y. f x = Inr y) xs ys"
  by (induction xs arbitrary: ys) (auto simp: and_then_def split: sum.splits)

lemma item_defaults_keys: "item_defaults item = Inr item' \<Longrightarrow> item_has_keys item'"
  by (auto simp: item_defaults_def item_has_keys_def has_key_setdefault split: json.splits)

lemma traverse_item_defaults:
  "traverse item_defaults xs = Inr ys \<Longrightarrow> list_all item_has_keys ys"
proof -
  assume "traverse item_defaults xs = Inr ys"
  then have "list_all2 (\<lambda>x y. item_defaults x = Inr y) xs ys" by (rule traverse_Inr)
  then show ?thesis
    by (induction rule: list_all2_induct) (auto simp: item_defaults_keys)
qed

lemma well_formed_defaults:
  "well_formed_record parse_issue_record" "well_formed_record (error_record msg)"
  by (simp_all add: well_formed_record_def parse_issue_record_def error_record_def
        item_has_keys_def has_key_def)

lemma safe_default_records:
  "safe_default parse_issue_record" "safe_default (error_record msg)"
  by (simp_all add: safe_default_def parse_issue_record_def error_record_def)

lemma analyze_code_try_well_formed:
  assumes "analyze_code_try X response = Inr result"
  shows "well_formed_record result"
proof -
  from assms obtain tx response_text json_content loaded where
    "response = Inr tx" "py_strip tx = Inr response_text"
    "analyze_code_json_content response_text = Inr json_content"
    and loaded: "json_loads X json_content = Inr loaded"
    by (auto simp: analyze_code_try_def and_then_def split: sum.splits)
  note steps = this
  with assms obtain d where d: "loaded = JDict d" and fb: "has_key d ''feedback''"
    by (cases loaded) (auto simp: analyze_code_try_def and_then_def split: if_splits)
  define d3 where "d3 =
     setdefault ''overall_score'' (JInt 5)
       (setdefault ''summary'' (JStr ''Code analysis completed'')
          (case map_of d ''feedback'' of
             Some (JList _) \<Rightarrow> d
           | _ \<Rightarrow> set_item ''feedback'' (JList []) d))"
  define items where
    "items = (case map_of d3 ''feedback'' of Some (JList xs) \<Rightarrow> xs | _ \<Rightarrow> [])"
  have "and_then (traverse item_defaults items)
          (\<lambda>items'. Inr (JDict (set_item ''feedback'' (JList items') d3))) = Inr result"
    using assms steps d fb
    by (simp add: analyze_code_try_def Let_def d3_def items_def and_then_def)
  then obtain items' where tr: "traverse item_defaults items = Inr items'"
    and res: "result = JDict (set_item ''feedback'' (JList items') d3)"
    by (auto simp: and_then_def split: sum.splits)
  have "list_all item_has_keys items'" using tr by (rule traverse_item_defaults)
  moreover have "has_key d3 ''summary''" "has_key d3 ''overall_score''"
    by (simp_all add: d3_def has_key_setdefault)
  ultimately show ?thesis
    by (simp add: res well_formed_record_def map_of_set_item has_key_set_item)
qed

lemma analyze_code_cases:
  "fst (analyze_code X c) =
     (case analyze_code_try X (replies c (calls c)) of
        Inr result \<Rightarrow> result
      | Inl JSONDecodeError \<Rightarrow> parse_issue_record
      | Inl e \<Rightarrow> error_record (str_exc X e))"
  by (simp add: analyze_code_def generate_content_def)

text \<open>
  Claim C1. \<open>analyze_code\<close> is a total function: whatever the call to the model gives (an
  exception, no text, any text), it returns a record with the keys \<open>feedback\<close>, \<open>summary\<close>
  and \<open>overall_score\<close>, where \<open>feedback\<close> is a list whose items all have the keys
  \<open>category\<close>, \<open>severity\<close>, \<open>line\<close>, \<open>message\<close> and \<open>suggestion\<close>. Whenever the \<open>try\<close> fails
  the record has overall score 5 and exactly one feedback item; when no JSON text can be
  extracted it is the fixed record of the \<open>ValueError\<close>, and when \<open>json.loads\<close> raises
  \<open>JSONDecodeError\<close> it is the fixed record of that handler.
\<close>

theorem analyze_code_well_formed:
  "well_formed_record (fst (analyze_code X c)) \<and>
   (\<forall>e. analyze_code_try X (replies c (calls c)) = Inl e \<longrightarrow>
        safe_default (fst (analyze_code X c))) \<and>
   (\<forall>tx e. replies c (calls c) = Inr (Some tx) \<and>
           analyze_code_json_content (strip tx) = Inl e \<longrightarrow>
        fst (analyze_code X c) = error_record ''No valid JSON found in response'') \<and>
   (\<forall>tx json_content. replies c (calls c) = Inr (Some tx) \<and>
           analyze_code_json_content (strip tx) = Inr json_content \<and>
           json_loads X json_content = Inl JSONDecodeError \<longrightarrow>
        fst (analyze_code X c) = parse_issue_record) \<and>
   safe_default parse_issue_record \<and>
   safe_default (error_record ''No valid JSON found in response'')"
proof (intro conjI allI impI)
  show "well_formed_record (fst (analyze_code X c))"
    unfolding analyze_code_cases
    by (auto simp: well_formed_defaults analyze_code_try_well_formed
          split: sum.splits pyerr.splits)
next
  fix e
  assume "analyze_code_try X (replies c (calls c)) = Inl e"
  then show "safe_default (fst (analyze_code X c))"
    unfolding analyze_code_cases by (cases e) (simp_all add: safe_default_records)
next
  fix tx e
  assume h: "replies c (calls c) = Inr (Some tx) \<and> analyze_code_json_content (strip tx) = Inl e"
  then have "e = ValueError ''No valid JSON found in response''"
    by (auto simp: analyze_code_json_content_def Let_def split: if_splits)
  with h have "analyze_code_try X (replies c (calls c))
                 = Inl (ValueError ''No valid JSON found in response'')"
    by (simp add: analyze_code_try_def and_then_def py_strip_def)
  then show "fst (analyze_code X c) = error_record ''No valid JSON found in response''"
    unfolding analyze_code_cases by (simp add: str_exc_def)
next
  fix tx json_content
  assume "replies c (calls c) = Inr (Some tx) \<and>
          analyze_code_json_content (strip tx) = Inr json_content \<and>
          json_loads X json_content = Inl JSONDecodeError"
  then have "analyze_code_try X (replies c (calls c)) = Inl JSONDecodeError"
    by (simp add: analyze_code_try_def and_then_def py_strip_def)
  then show "fst (analyze_code X c) = parse_issue_record"
    unfolding analyze_code_cases by simp
qed (simp_all add: safe_default_records)

theorem analyze_code_well_formed_witness:
  "fst (analyze_code example_externals (one_reply ''no json here''))
     = error_record ''No valid JSON found in response'' \<and>
   fst (analyze_code example_externals (one_reply ''{oops ''))
     = parse_issue_record \<and>
   safe_default (fst (analyze_code example_externals (one_reply ''no json here''))) \<and>
   well_formed_record (fst (analyze_code example_externals (one_reply ''no json here'')))"
proof -
  have a: "replies (one_reply ''no json here'') (calls (one_reply ''no json here''))
             = Inr (Some ''no json here'')"
    by (simp add: one_reply_def)
  have b: "analyze_code_json_content (strip ''no json here'')
             = Inl (ValueError ''No valid JSON found in response'')"
    by code_simp
  have c: "replies (one_reply ''{oops '') (calls (one_reply ''{oops '')) = Inr (Some ''{oops '')"
    by (simp add: one_reply_def)
  have d: "analyze_code_json_content (strip ''{oops '') = Inr ''{oops''"
    by code_simp
  have e: "json_loads example_externals ''{oops'' = Inl JSONDecodeError"
    by code_simp
  have f: "analyze_code_try example_externals (Inr (Some ''no json here''))
             = Inl (ValueError ''No valid JSON found in response'')"
    by code_simp
  show ?thesis
    using analyze_code_well_formed [of example_externals "one_reply ''no json here''"]
      analyze_code_well_formed [of example_externals "one_reply ''{oops ''"]
      a b c d e f
    by metis
qed

section \<open>Properties of the extraction of JSON text\<close>





















lemma json_content_error:
  "parse_ai_response_json_content t = Inl e \<Longrightarrow> e = ValueError ''No valid JSON found''"
  by (auto simp: parse_ai_response_json_content_def Let_def split: if_splits)

lemma parse_ai_response_cases:
  "parse_ai_response X (Some tx) =
     (case parse_ai_response_json_content (strip tx) of
        Inl e \<Rightarrow> Inr fallback_record
      | Inr json_content \<Rightarrow>
          (case json_loads X json_content of
             Inr result \<Rightarrow> Inr result
           | Inl JSONDecodeError \<Rightarrow> Inr fallback_record
           | Inl (ValueError m) \<Rightarrow> Inr fallback_record
           | Inl e \<Rightarrow> Inl e))"
  by (auto simp: parse_ai_response_def py_strip_def and_then_def
      dest: json_content_error split: sum.splits pyerr.splits)







section \<open>Properties of the review of one file\<close>

lemma new_FeedbackItem_filename:
  assumes "new_FeedbackItem X (set_item ''filename'' (JStr fname) d) = Inr item"
  shows "FeedbackItem.filename item = Some fname"
proof -
  have "optional_str X (set_item ''filename'' (JStr fname) d) ''filename'' = Some (Some fname)"
    by (simp add: optional_str_def map_of_set_item str_field_def)
  with assms show ?thesis
    by (auto simp: new_FeedbackItem_def Option.bind_eq_Some_conv split: option.splits)
qed

lemma traverse_items_filename:
  assumes "traverse
             (\<lambda>item. and_then (mapping item) (\<lambda>d.
                new_FeedbackItem X (set_item ''filename'' (JStr fname) d)))
             items = Inr feedback_items"
  shows "\<forall>item \<in> set feedback_items. FeedbackItem.filename item = Some fname"
proof -
  from assms have "list_all2
      (\<lambda>x y. and_then (mapping x) (\<lambda>d.
                new_FeedbackItem X (set_item ''filename'' (JStr fname) d)) = Inr y)
      items feedback_items"
    by (rule traverse_Inr)
  then show ?thesis
    by (induction rule: list_all2_induct)
       (auto simp: and_then_def new_FeedbackItem_filename split: sum.splits)
qed

lemma new_FileFeedback_fields:
  "new_FileFeedback X fname items sv nv = Inr fa \<Longrightarrow>
     FileFeedback.filename fa = fname \<and> feedback fa = items"
  by (auto simp: new_FileFeedback_def Option.bind_eq_Some_conv split: option.splits)

lemma analyze_single_file_try_fields:
  assumes "analyze_single_file_try X response fname = Inr fa"
  shows "FileFeedback.filename fa = fname"
    and "\<forall>item \<in> set (feedback fa). FeedbackItem.filename item = Some fname"
proof -
  from assms obtain result items feedback_items sv nv where
    tr: "traverse
           (\<lambda>item. and_then (mapping item) (\<lambda>d.
              new_FeedbackItem X (set_item ''filename'' (JStr fname) d)))
           items = Inr feedback_items"
    and nf: "new_FileFeedback X fname feedback_items sv nv = Inr fa"
    unfolding analyze_single_file_try_def and_then_def
    by (auto split: sum.splits)
  from nf show "FileFeedback.filename fa = fname" by (simp add: new_FileFeedback_fields)
  from nf tr show "\<forall>item \<in> set (feedback fa). FeedbackItem.filename item = Some fname"
    using traverse_items_filename [OF tr] by (simp add: new_FileFeedback_fields)
qed

lemma analyze_single_file_cases:
  "fst (analyze_single_file X c file_info all_files) =
     (case analyze_single_file_try X (replies c (calls c)) (FileInfo.filename file_info) of
        Inr file_feedback \<Rightarrow> file_feedback
      | Inl e \<Rightarrow>
          \<lparr>filename = FileInfo.filename file_info,
           feedback =
             [\<lparr>category = ''logic'', severity = ''low'', line = 1,
               message = ''Analysis error: '' @ str_exc X e,
               suggestion = ''Please verify file content and try again'',
               filename = Some (FileInfo.filename file_info)\<rparr>],
           summary = ''Unable to analyze '' @ FileInfo.filename file_info,
           score = 5\<rparr>)"
  by (simp add: analyze_single_file_def generate_content_def Let_def)

lemma analyze_single_file_client:
  "snd (analyze_single_file X c file_info all_files) = c\<lparr>calls := Suc (calls c)\<rparr>"
  by (simp add: analyze_single_file_def generate_content_def Let_def)

text \<open>
  Claim C9. Whatever the model replies, the \<open>FileFeedback\<close> of a file carries the name
  of that file, and so does every one of its feedback items, on the success path and
  on the error path: a \<open>filename\<close> in the reply is overwritten.
\<close>

theorem analyze_single_file_filename:
  "FileFeedback.filename (fst (analyze_single_file X c file_info all_files))
     = FileInfo.filename file_info \<and>
   (\<forall>item \<in> set (feedback (fst (analyze_single_file X c file_info all_files))).
      FeedbackItem.filename item = Some (FileInfo.filename file_info))"
  unfolding analyze_single_file_cases
  by (auto simp: analyze_single_file_try_fields split: sum.splits)

theorem analyze_single_file_filename_witness:
  \<open>FileFeedback.filename
     (fst (analyze_single_file example_externals
        (one_reply ''{"feedback": [{"category": "security", "severity": "high", "line": 3, "message": "m", "suggestion": "s", "filename": "other.py"}], "summary": "ok", "score": 7}'')
        example_file [example_file])) = ''a.py'' \<and>
   map FeedbackItem.filename
     (feedback (fst (analyze_single_file example_externals
        (one_reply ''{"feedback": [{"category": "security", "severity": "high", "line": 3, "message": "m", "suggestion": "s", "filename": "other.py"}], "summary": "ok", "score": 7}'')
        example_file [example_file]))) = [Some ''a.py'']\<close>
proof -
  let ?c = \<open>one_reply ''{"feedback": [{"category": "security", "severity": "high", "line": 3, "message": "m", "suggestion": "s", "filename": "other.py"}], "summary": "ok", "score": 7}''\<close>
  have n: "length (feedback (fst (analyze_single_file example_externals ?c
                       example_file [example_file]))) = 1"
    by code_simp
  have f: "FileInfo.filename example_file = ''a.py''" by (simp add: example_file_def)
  from n obtain item where
    i: "feedback (fst (analyze_single_file example_externals ?c example_file [example_file]))
          = [item]"
    by (auto simp: length_Suc_conv)
  show ?thesis
    using analyze_single_file_filename [of example_externals ?c example_file "[example_file]"]
    by (simp add: i f)
qed

lemma unparseable_fallback:
  "unparseable X tx \<Longrightarrow> parse_ai_response X (Some tx) = Inr fallback_record"
  by (auto simp: unparseable_def parse_ai_response_cases split: sum.splits)

lemma analyze_single_file_try_fallback:
  assumes "parse_ai_response X (Some tx) = Inr fallback_record"
  shows "analyze_single_file_try X (Inr (Some tx)) fname =
           Inr \<lparr>filename = fname,
                feedback =
                  [\<lparr>category = ''style'', severity = ''medium'', line = 1,
                    message = ''Unable to parse analysis response'',
                    suggestion = ''Please try again or check file syntax'',
                    filename = Some fname\<rparr>],
                summary = ''Analysis completed with parsing issues'',
                score = 5\<rparr>"
  unfolding analyze_single_file_try_def
  by (simp add: assms and_then_def fallback_record_def get_method_def get_or_def py_iter_def
        mapping_def new_FeedbackItem_def required_str_def required_int_def optional_str_def
        str_field_def int_field_def new_FileFeedback_def)

lemma analyze_single_file_try_errors:
  "analyze_single_file_try X (Inl e) fname = Inl e"
  "analyze_single_file_try X (Inr None) fname = Inl (AttributeError JNull ''strip'')"
  by (simp_all add: analyze_single_file_try_def and_then_def parse_ai_response_def py_strip_def)

lemma analyze_single_file_try_invalid_item:
  assumes "parse_ai_response X tx = Inr (JDict d)"
    and "map_of d ''feedback'' = Some (JList items)"
    and "traverse
           (\<lambda>item. and_then (mapping item) (\<lambda>d.
              new_FeedbackItem X (set_item ''filename'' (JStr fname) d)))
           items = Inl e"
  shows "analyze_single_file_try X (Inr tx) fname = Inl e"
  unfolding analyze_single_file_try_def
  using assms by (simp add: and_then_def get_method_def get_or_def py_iter_def)

lemma analyze_files_spec:
  "analyze_files X all_files fs (fas, fb, c) = (fas', fb', c') \<Longrightarrow>
     length fas' = length fas + length fs \<and>
     take (length fas) fas' = fas \<and>
     fb' = fb @ concat (map feedback (drop (length fas) fas')) \<and>
     c' = c\<lparr>calls := calls c + length fs\<rparr>"
proof (induction fs arbitrary: fas fb c)
  case Nil
  then show ?case by simp
next
  case (Cons f fs)
  obtain fa c1 where a: "analyze_single_file X c f all_files = (fa, c1)"
    by (cases "analyze_single_file X c f all_files")
  then have c1: "c1 = c\<lparr>calls := Suc (calls c)\<rparr>"
    using analyze_single_file_client [of X c f all_files] by simp
  from Cons.prems a have
    "analyze_files X all_files fs (fas @ [fa], fb @ feedback fa, c1) = (fas', fb', c')"
    by simp
  from Cons.IH [OF this] have
    l: "length fas' = length (fas @ [fa]) + length fs"
    and t: "take (length (fas @ [fa])) fas' = fas @ [fa]"
    and b: "fb' = (fb @ feedback fa) @ concat (map feedback (drop (length (fas @ [fa])) fas'))"
    and cc: "c' = c1\<lparr>calls := calls c1 + length fs\<rparr>"
    by simp_all
  from t have t1: "take (length fas) fas' = fas"
    by (metis append_eq_conv_conj take_take min.idem length_append le_add1 min_absorb1 take_all_iff
          order_refl append_take_drop_id take_append)
  from t l have d: "drop (length fas) fas' = fa # drop (Suc (length fas)) fas'"
    by (metis Cons_nth_drop_Suc length_append_singleton less_add_Suc1 nth_append_length nth_take
          lessI add_Suc_right add_Suc le_add1 le_imp_less_Suc)
  show ?case using l t1 b cc c1 d by simp
qed

lemma per_file_analyses_length: "length (per_file_analyses X c fl) = length fl"
proof -
  obtain fas fb c1 where a: "analyze_files X fl fl ([], [], c) = (fas, fb, c1)"
    by (cases "analyze_files X fl fl ([], [], c)") auto
  from analyze_files_spec [OF a] show ?thesis by (simp add: per_file_analyses_def a)
qed

text \<open>
  Claim C5, as amended. \<open>analyze_single_file\<close> is a total function: it returns a
  \<open>FileFeedback\<close> for the file's name whatever the call to the model gives. When the
  \<open>try\<close> raises (the call fails, the response has no text, or an item of the reply is
  refused when the \<open>FeedbackItem\<close> is built), the result has score 5 and exactly one
  feedback item, of category \<open>logic\<close> and severity \<open>low\<close>. When the reply is unparseable,
  nothing is raised: \<open>parse_ai_response\<close> substitutes its fallback record, and the result
  has score 5 and exactly one feedback item, of category \<open>style\<close> and severity \<open>medium\<close>.
  So the loop of \<open>analyze_codebase\<close> over the files is never cut short: it yields one
  \<open>FileFeedback\<close> per file.
\<close>

theorem analyze_single_file_total:
  "FileFeedback.filename (fst (analyze_single_file X c file_info all_files))
     = FileInfo.filename file_info \<and>
   (\<forall>e. analyze_single_file_try X (replies c (calls c)) (FileInfo.filename file_info) = Inl e \<longrightarrow>
      score (fst (analyze_single_file X c file_info all_files)) = 5 \<and>
      map category (feedback (fst (analyze_single_file X c file_info all_files))) = [''logic''] \<and>
      map severity (feedback (fst (analyze_single_file X c file_info all_files))) = [''low'']) \<and>
   (\<forall>e. replies c (calls c) = Inl e \<longrightarrow>
      analyze_single_file_try X (replies c (calls c)) (FileInfo.filename file_info) = Inl e) \<and>
   (replies c (calls c) = Inr None \<longrightarrow>
      analyze_single_file_try X (replies c (calls c)) (FileInfo.filename file_info)
        = Inl (AttributeError JNull ''strip'')) \<and>
   (\<forall>tx d items e. replies c (calls c) = Inr tx \<and> parse_ai_response X tx = Inr (JDict d) \<and>
        map_of d ''feedback'' = Some (JList items) \<and>
        traverse
          (\<lambda>item. and_then (mapping item) (\<lambda>d.
             new_FeedbackItem X (set_item ''filename'' (JStr (FileInfo.filename file_info)) d)))
          items = Inl e \<longrightarrow>
      analyze_single_file_try X (replies c (calls c)) (FileInfo.filename file_info) = Inl e) \<and>
   (\<forall>tx. replies c (calls c) = Inr (Some tx) \<and> unparseable X tx \<longrightarrow>
      score (fst (analyze_single_file X c file_info all_files)) = 5 \<and>
      map category (feedback (fst (analyze_single_file X c file_info all_files))) = [''style''] \<and>
      map severity (feedback (fst (analyze_single_file X c file_info all_files))) = [''medium'']) \<and>
   length (per_file_analyses X c all_files) = length all_files"
proof (intro conjI allI impI)
  show "FileFeedback.filename (fst (analyze_single_file X c file_info all_files))
          = FileInfo.filename file_info"
    unfolding analyze_single_file_cases
    by (auto simp: analyze_single_file_try_fields split: sum.splits)
next
  fix e
  assume "analyze_single_file_try X (replies c (calls c)) (FileInfo.filename file_info) = Inl e"
  then have "fst (analyze_single_file X c file_info all_files) =
          \<lparr>filename = FileInfo.filename file_info,
           feedback =
             [\<lparr>category = ''logic'', severity = ''low'', line = 1,
               message = ''Analysis error: '' @ str_exc X e,
               suggestion = ''Please verify file content and try again'',
               filename = Some (FileInfo.filename file_info)\<rparr>],
           summary = ''Unable to analyze '' @ FileInfo.filename file_info,
           score = 5\<rparr>"
    by (simp add: analyze_single_file_cases)
  then show "score (fst (analyze_single_file X c file_info all_files)) = 5"
    and "map category (feedback (fst (analyze_single_file X c file_info all_files))) = [''logic'']"
    and "map severity (feedback (fst (analyze_single_file X c file_info all_files))) = [''low'']"
    by simp_all
next
  fix e
  assume "replies c (calls c) = Inl e"
  then show "analyze_single_file_try X (replies c (calls c)) (FileInfo.filename file_info) = Inl e"
    by (simp add: analyze_single_file_try_errors)
next
  assume "replies c (calls c) = Inr None"
  then show "analyze_single_file_try X (replies c (calls c)) (FileInfo.filename file_info)
               = Inl (AttributeError JNull ''strip'')"
    by (simp add: analyze_single_file_try_errors)
next
  fix tx d items e
  assume "replies c (calls c) = Inr tx \<and> parse_ai_response X tx = Inr (JDict d) \<and>
        map_of d ''feedback'' = Some (JList items) \<and>
        traverse
          (\<lambda>item. and_then (mapping item) (\<lambda>d.
             new_FeedbackItem X (set_item ''filename'' (JStr (FileInfo.filename file_info)) d)))
          items = Inl e"
  then show "analyze_single_file_try X (replies c (calls c)) (FileInfo.filename file_info) = Inl e"
    by (simp add: analyze_single_file_try_invalid_item)
next
  fix tx
  assume h: "replies c (calls c) = Inr (Some tx) \<and> unparseable X tx"
  then have "fst (analyze_single_file X c file_info all_files) =
           \<lparr>filename = FileInfo.filename file_info,
                feedback =
                  [\<lparr>category = ''style'', severity = ''medium'', line = 1,
                    message = ''Unable to parse analysis response'',
                    suggestion = ''Please try again or check file syntax'',
                    filename = Some (FileInfo.filename file_info)\<rparr>],
                summary = ''Analysis completed with parsing issues'',
                score = 5\<rparr>"
    by (simp add: analyze_single_file_cases analyze_single_file_try_fallback unparseable_fallback)
  then show "score (fst (analyze_single_file X c file_info all_files)) = 5"
    and "map category (feedback (fst (analyze_single_file X c file_info all_files))) = [''style'']"
    and "map severity (feedback (fst (analyze_single_file X c file_info all_files))) = [''medium'']"
    by simp_all
next
  show "length (per_file_analyses X c all_files) = length all_files"
    by (rule per_file_analyses_length)
qed

theorem analyze_single_file_total_witness:
  \<open>map category
     (feedback (fst (analyze_single_file example_externals failing_client
                       example_file [example_file]))) = [''logic''] \<and>
   map category
     (feedback (fst (analyze_single_file example_externals
                       (one_reply ''{"feedback": [{"line": 3}]}'')
                       example_file [example_file]))) = [''logic''] \<and>
   map severity
     (feedback (fst (analyze_single_file example_externals (one_reply ''not json'')
                       example_file [example_file]))) = [''medium''] \<and>
   score (fst (analyze_single_file example_externals (one_reply ''not json'')
                 example_file [example_file])) = 5\<close>
proof -
  let ?bad = \<open>one_reply ''{"feedback": [{"line": 3}]}''\<close>
  note a = analyze_single_file_total [of example_externals failing_client example_file
             "[example_file]"]
  note b = analyze_single_file_total [of example_externals ?bad example_file "[example_file]"]
  note c = analyze_single_file_total [of example_externals "one_reply ''not json''"
             example_file "[example_file]"]
  have a1: "replies failing_client (calls failing_client)
              = Inl (OtherException ''service unavailable'')"
    by (simp add: failing_client_def)
  have a2: "analyze_single_file_try example_externals
              (replies failing_client (calls failing_client)) (FileInfo.filename example_file)
              = Inl (OtherException ''service unavailable'')"
    using a [THEN conjunct2, THEN conjunct2, THEN conjunct1, rule_format, OF a1] .
  have ra: "map category
     (feedback (fst (analyze_single_file example_externals failing_client
                       example_file [example_file]))) = [''logic'']"
    using a [THEN conjunct2, THEN conjunct1, rule_format, OF a2] by simp
  have b1: \<open>replies ?bad (calls ?bad) = Inr (Some ''{"feedback": [{"line": 3}]}'') \<and>
     parse_ai_response example_externals (Some ''{"feedback": [{"line": 3}]}'')
       = Inr (JDict [(''feedback'', JList [JDict [(''line'', JInt 3)]])]) \<and>
     map_of [(''feedback'', JList [JDict [(''line'', JInt 3)]])] ''feedback''
       = Some (JList [JDict [(''line'', JInt 3)]]) \<and>
     traverse
       (\<lambda>item. and_then (mapping item) (\<lambda>d.
          new_FeedbackItem example_externals
            (set_item ''filename'' (JStr (FileInfo.filename example_file)) d)))
       [JDict [(''line'', JInt 3)]]
       = Inl (ValidationError ''FeedbackItem'' [(''line'', JInt 3), (''filename'', JStr ''a.py'')])\<close>
    by code_simp
  have b2: "analyze_single_file_try example_externals (replies ?bad (calls ?bad))
              (FileInfo.filename example_file)
              = Inl (ValidationError ''FeedbackItem''
                      [(''line'', JInt 3), (''filename'', JStr ''a.py'')])"
    using b [THEN conjunct2, THEN conjunct2, THEN conjunct2, THEN conjunct2, THEN conjunct1,
             rule_format, OF b1] .
  have rb: "map category
     (feedback (fst (analyze_single_file example_externals ?bad
                       example_file [example_file]))) = [''logic'']"
    using b [THEN conjunct2, THEN conjunct1, rule_format, OF b2] by simp
  have c1: "replies (one_reply ''not json'') (calls (one_reply ''not json''))
              = Inr (Some ''not json'') \<and> unparseable example_externals ''not json''"
    by code_simp
  note rc = c [THEN conjunct2, THEN conjunct2, THEN conjunct2, THEN conjunct2, THEN conjunct2,
               THEN conjunct1, rule_format, OF c1]
  from ra rb rc show ?thesis by simp
qed

text \<open>
  The claim as stated fails for an unparseable reply: the one feedback item is the
  medium-severity \<open>style\<close> item of the fallback record, not a low-severity \<open>logic\<close> item.
\<close>

theorem analyze_single_file_total_counterexample:
  "unparseable example_externals ''not json'' \<and>
   map category
     (feedback (fst (analyze_single_file example_externals (one_reply ''not json'')
                       example_file [example_file]))) = [''style''] \<and>
   map severity
     (feedback (fst (analyze_single_file example_externals (one_reply ''not json'')
                       example_file [example_file]))) = [''medium'']"
  by code_simp

section \<open>Properties of the whole review\<close>

lemma to_double_error: "to_double x = Inl e \<Longrightarrow> e = OverflowError"
  by (auto simp: to_double_def Let_def split: if_splits)

lemma calculate_overall_score_error:
  assumes "calculate_overall_score fas = Inl e"
  shows "e = OverflowError" and "fas \<noteq> []" and "2 ^ 1023 \<le> \<bar>sum_list (map score fas)\<bar>"
proof -
  from assms show ne: "fas \<noteq> []" by (auto simp: calculate_overall_score_def)
  define q where "q = (of_int (sum_list (map score fas)) :: rat) / of_int (int (length fas))"
  from assms ne have td: "to_double q = Inl e"
    by (auto simp: calculate_overall_score_def true_div_def and_then_def q_def split: sum.splits)
  then show "e = OverflowError" by (rule to_double_error)
  have "\<not> \<bar>q\<bar> < 2 ^ 1023" using td to_double_finite [of q] by auto
  then have big: "2 ^ 1023 \<le> \<bar>q\<bar>" by simp
  have n1: "(1::rat) \<le> of_int (int (length fas))" using ne by (cases fas) simp_all
  have "\<bar>q\<bar> = \<bar>of_int (sum_list (map score fas))\<bar> / of_int (int (length fas))"
    by (simp add: q_def)
  also have "\<dots> \<le> \<bar>of_int (sum_list (map score fas))\<bar> / 1"
    using n1 ne by (intro divide_left_mono) simp_all
  finally have "\<bar>q\<bar> \<le> of_int \<bar>sum_list (map score fas)\<bar>" by simp
  with big have "(2::rat) ^ 1023 \<le> of_int \<bar>sum_list (map score fas)\<bar>" by (rule order_trans)
  then have "(of_int (2 ^ 1023) :: rat) \<le> of_int \<bar>sum_list (map score fas)\<bar>" by simp
  then show "2 ^ 1023 \<le> \<bar>sum_list (map score fas)\<bar>" by (simp only: of_int_le_iff)
qed

lemma analyze_codebase_unfold:
  "fst (analyze_codebase X c fl pname) =
     (let fas = per_file_analyses X c fl;
          cross = fst (analyze_cross_file_dependencies X (c\<lparr>calls := calls c + length fl\<rparr>) fl)
      in and_then (calculate_overall_score fas) (\<lambda>s.
           Inr \<lparr>project_name = pname,
                files = fas,
                cross_file_issues = cross,
                overall_summary = generate_overall_summary fas cross,
                overall_score = s,
                total_files = int (length fl),
                total_issues = int (length (concat (map feedback fas) @ cross))\<rparr>))"
proof -
  obtain fas fb c1 where a: "analyze_files X fl fl ([], [], c) = (fas, fb, c1)"
    by (cases "analyze_files X fl fl ([], [], c)") auto
  from analyze_files_spec [OF a] have
    fb: "fb = concat (map feedback fas)" and c1: "c1 = c\<lparr>calls := calls c + length fl\<rparr>"
    by simp_all
  obtain cross c2 where b: "analyze_cross_file_dependencies X c1 fl = (cross, c2)"
    by (cases "analyze_cross_file_dependencies X c1 fl")
  show ?thesis
    using a b fb c1 by (simp add: analyze_codebase_def per_file_analyses_def Let_def)
qed

lemma analyze_codebase_returns:
  assumes "\<bar>sum_list (map score (per_file_analyses X c fl))\<bar> < 2 ^ 1023"
  shows "\<exists>r. fst (analyze_codebase X c fl pname) = Inr r"
proof (cases "fst (analyze_codebase X c fl pname)")
  case (Inl e)
  then have "calculate_overall_score (per_file_analyses X c fl) = Inl e"
    by (auto simp: analyze_codebase_unfold Let_def and_then_def split: sum.splits)
  from calculate_overall_score_error(3) [OF this] assms show ?thesis by simp
next
  case (Inr r)
  then show ?thesis by blast
qed

text \<open>
  Claim C2, as amended. Whenever \<open>analyze_codebase\<close> returns a response, \<open>total_files\<close>
  is the number of input files, there is one file result per input file, and
  \<open>total_issues\<close> is the sum over the files of the length of the file's feedback list
  plus the number of cross-file issues. It returns whenever the per-file scores sum to
  less than \<open>2^1023\<close> in magnitude; the only exception it can raise is the
  \<open>OverflowError\<close> of the score average, on scores beyond that.
\<close>

theorem analyze_codebase_counts:
  "(\<forall>r. fst (analyze_codebase X c fl pname) = Inr r \<longrightarrow>
      total_files r = int (length fl) \<and>
      length (files r) = length fl \<and>
      total_issues r =
        int (sum_list (map (\<lambda>fa. length (feedback fa)) (files r))
             + length (cross_file_issues r))) \<and>
   (\<forall>e. fst (analyze_codebase X c fl pname) = Inl e \<longrightarrow>
      e = OverflowError \<and> 2 ^ 1023 \<le> \<bar>sum_list (map score (per_file_analyses X c fl))\<bar>) \<and>
   (\<bar>sum_list (map score (per_file_analyses X c fl))\<bar> < 2 ^ 1023 \<longrightarrow>
      (\<exists>r. fst (analyze_codebase X c fl pname) = Inr r))"
proof (intro conjI allI impI)
  fix r
  assume "fst (analyze_codebase X c fl pname) = Inr r"
  then obtain s where r: "r = \<lparr>project_name = pname,
                files = per_file_analyses X c fl,
                cross_file_issues =
                  fst (analyze_cross_file_dependencies X (c\<lparr>calls := calls c + length fl\<rparr>) fl),
                overall_summary = generate_overall_summary (per_file_analyses X c fl)
                  (fst (analyze_cross_file_dependencies X (c\<lparr>calls := calls c + length fl\<rparr>) fl)),
                overall_score = s,
                total_files = int (length fl),
                total_issues = int (length (concat (map feedback (per_file_analyses X c fl))
                  @ fst (analyze_cross_file_dependencies X (c\<lparr>calls := calls c + length fl\<rparr>) fl)))\<rparr>"
    by (auto simp: analyze_codebase_unfold Let_def and_then_def split: sum.splits)
  show "total_files r = int (length fl)" by (simp add: r)
  show "length (files r) = length fl" by (simp add: r per_file_analyses_length)
  show "total_issues r =
        int (sum_list (map (\<lambda>fa. length (feedback fa)) (files r))
             + length (cross_file_issues r))"
    by (simp add: r sum_feedback_lengths)
next
  fix e
  assume "fst (analyze_codebase X c fl pname) = Inl e"
  then have "calculate_overall_score (per_file_analyses X c fl) = Inl e"
    by (auto simp: analyze_codebase_unfold Let_def and_then_def split: sum.splits)
  then show "e = OverflowError"
    and "2 ^ 1023 \<le> \<bar>sum_list (map score (per_file_analyses X c fl))\<bar>"
    by (rule calculate_overall_score_error)+
next
  assume small: "\<bar>sum_list (map score (per_file_analyses X c fl))\<bar> < 2 ^ 1023"
  show "\<exists>r. fst (analyze_codebase X c fl pname) = Inr r"
  proof (cases "fst (analyze_codebase X c fl pname)")
    case (Inl e)
    then have "calculate_overall_score (per_file_analyses X c fl) = Inl e"
      by (auto simp: analyze_codebase_unfold Let_def and_then_def split: sum.splits)
    from calculate_overall_score_error(3) [OF this] small show ?thesis by simp
  next
    case (Inr r)
    then show ?thesis by blast
  qed
qed

lemma example_scores:
  "map score (per_file_analyses example_externals (replies_of example_replies)
                [example_file, other_file]) = [7, 5]"
  by code_simp

theorem analyze_codebase_counts_witness:
  "\<exists>r. fst (analyze_codebase example_externals (replies_of example_replies)
              [example_file, other_file] ''demo'') = Inr r \<and>
       total_files r = 2 \<and>
       total_issues r =
         int (sum_list (map (\<lambda>fa. length (feedback fa)) (files r))
              + length (cross_file_issues r))"
proof -
  note t = analyze_codebase_counts [of example_externals "replies_of example_replies"
             "[example_file, other_file]" "''demo''"]
  have "\<bar>sum_list (map score (per_file_analyses example_externals (replies_of example_replies)
                [example_file, other_file]))\<bar> < 2 ^ 1023"
    by (simp add: example_scores)
  with t obtain r where r: "fst (analyze_codebase example_externals (replies_of example_replies)
              [example_file, other_file] ''demo'') = Inr r"
    by blast
  with t have "total_files r = int (length [example_file, other_file])"
    and "total_issues r =
         int (sum_list (map (\<lambda>fa. length (feedback fa)) (files r))
              + length (cross_file_issues r))"
    by blast+
  with r show ?thesis by simp
qed

text \<open>
  The claim as stated fails for a reply with an enormous score: one file whose reply
  gives the score \<open>2^1024\<close> makes the average overflow, and no response is returned.
\<close>

lemma big_score_analysis:
  \<open>per_file_analyses example_externals
     (one_reply ''{"score": 179769313486231590772930519078902473361797697894230657273430081157732675805500963132708477322407536021120113879871393357658789768814416622492847430639474124377767893424865485276302219601246094119453082952085005768838150682342462881473913110540827237163350510684586298239947245938479716304835356329624224137216}'')
     [example_file]
   = [\<lparr>filename = ''a.py'', feedback = [], summary = ''Analysis for a.py'', score = 2 ^ 1024\<rparr>]\<close>
  by code_simp

theorem analyze_codebase_counts_counterexample:
  \<open>fst (analyze_codebase example_externals
     (one_reply ''{"score": 179769313486231590772930519078902473361797697894230657273430081157732675805500963132708477322407536021120113879871393357658789768814416622492847430639474124377767893424865485276302219601246094119453082952085005768838150682342462881473913110540827237163350510684586298239947245938479716304835356329624224137216}'')
     [example_file] ''demo'') = Inl OverflowError\<close>
proof -
  have "calculate_overall_score
          [\<lparr>filename = ''a.py'', feedback = [], summary = ''Analysis for a.py'', score = 2 ^ 1024\<rparr>]
          = Inl OverflowError"
    by (simp add: calculate_overall_score_def true_div_def and_then_def to_double_overflow)
  then show ?thesis
    by (simp add: analyze_codebase_unfold big_score_analysis Let_def and_then_def)
qed






lemma analyze_codebase_calls:
  "calls (snd (analyze_codebase X c fl pname))
     = calls c + length fl + (if length fl < 2 then 0 else 1)"
proof -
  obtain fas fb c1 where a: "analyze_files X fl fl ([], [], c) = (fas, fb, c1)"
    by (cases "analyze_files X fl fl ([], [], c)") auto
  from analyze_files_spec [OF a] have c1: "c1 = c\<lparr>calls := calls c + length fl\<rparr>" by simp
  obtain cross c2 where b: "analyze_cross_file_dependencies X c1 fl = (cross, c2)"
    by (cases "analyze_cross_file_dependencies X c1 fl")
  then have "calls c2 = calls c1 + (if length fl < 2 then 0 else 1)"
    by (auto simp: analyze_cross_file_dependencies_def generate_content_def Let_def
          split: if_splits prod.splits)
  then show ?thesis using a b c1 by (simp add: analyze_codebase_def Let_def)
qed

text \<open>
  Claim C8. For fewer than two files, \<open>analyze_cross_file_dependencies\<close> returns the
  empty list and leaves the client as it was: the model is not called. The review of
  such a submission makes one call per file and no other, and the response it returns
  has no cross-file issue.
\<close>

theorem analyze_cross_file_dependencies_small:
  "length fl < 2 \<longrightarrow>
     analyze_cross_file_dependencies X c fl = ([], c) \<and>
     calls (snd (analyze_codebase X c fl pname)) = calls c + length fl \<and>
     (\<forall>r. fst (analyze_codebase X c fl pname) = Inr r \<longrightarrow> cross_file_issues r = [])"
proof (intro impI conjI allI)
  assume s: "length fl < 2"
  then show a: "analyze_cross_file_dependencies X c fl = ([], c)"
    by (simp add: analyze_cross_file_dependencies_def)
  show "calls (snd (analyze_codebase X c fl pname)) = calls c + length fl"
    using s by (simp add: analyze_codebase_calls)
  fix r
  assume "fst (analyze_codebase X c fl pname) = Inr r"
  then show "cross_file_issues r = []"
    using s
    by (auto simp: analyze_codebase_unfold Let_def and_then_def
          analyze_cross_file_dependencies_def split: sum.splits)
qed

lemma one_file_scores:
  \<open>map score (per_file_analyses example_externals
      (one_reply ''{"feedback": [{"category": "security", "severity": "high", "line": 3, "message": "m", "suggestion": "s", "filename": "other.py"}], "summary": "ok", "score": 7}'')
      [example_file]) = [7]\<close>
  by code_simp

theorem analyze_cross_file_dependencies_small_witness:
  \<open>\<exists>r. fst (analyze_codebase example_externals
      (one_reply ''{"feedback": [{"category": "security", "severity": "high", "line": 3, "message": "m", "suggestion": "s", "filename": "other.py"}], "summary": "ok", "score": 7}'')
      [example_file] ''demo'') = Inr r \<and> cross_file_issues r = []\<close>
proof -
  let ?c = \<open>one_reply ''{"feedback": [{"category": "security", "severity": "high", "line": 3, "message": "m", "suggestion": "s", "filename": "other.py"}], "summary": "ok", "score": 7}''\<close>
  have "\<bar>sum_list (map score (per_file_analyses example_externals ?c [example_file]))\<bar> < 2 ^ 1023"
    by (simp add: one_file_scores)
  then obtain r where
    r: "fst (analyze_codebase example_externals ?c [example_file] ''demo'') = Inr r"
    using analyze_codebase_returns by blast
  have "length [example_file] < 2" by simp
  with r have "cross_file_issues r = []"
    using analyze_cross_file_dependencies_small [of "[example_file]" example_externals ?c "''demo''"]
    by blast
  with r show ?thesis by blast
qed

end
